theory Spec2Isabelle
  imports Main "HOL-Library.Char_ord" "HOL-Library.List_Lexorder" "HOL-Library.Multiset"
    "HOL-Library.AList"
begin

section \<open>lsrv: discovery and correlation of local development servers\<close>

text \<open>
  A shallow embedding of \<^verbatim>\<open>internal/detector/detector.go\<close>, of the git helpers
  (\<^verbatim>\<open>IsRepo\<close>, \<^verbatim>\<open>GetRepoName\<close>, \<^verbatim>\<open>GetBranch\<close>) and of
  \<^verbatim>\<open>internal/platform/platform.go\<close>.

  Go strings are byte sequences: \<^typ>\<open>string\<close>, compared byte by byte
  (\<^verbatim>\<open>Char_ord\<close>, \<^verbatim>\<open>List_Lexorder\<close>). Go's \<^verbatim>\<open>int\<close> is a 64-bit
  signed integer; the program never does arithmetic on a PID or a port, it only parses,
  compares and prints them, so they are \<^typ>\<open>int\<close> and the range check sits where Go has
  it, in \<^verbatim>\<open>strconv.Atoi\<close>. Every external command and file-system query is a field of
  the record \<open>env\<close>; a failed call is \<open>None\<close>.
\<close>

subsection \<open>The Go library functions the program calls\<close>

definition HasPrefix :: "string \<Rightarrow> string \<Rightarrow> bool" where
  "HasPrefix s p = (take (length p) s = p)"

definition TrimPrefix :: "string \<Rightarrow> string \<Rightarrow> string" where
  "TrimPrefix s p = (if HasPrefix s p then drop (length p) s else s)"

definition HasSuffix :: "string \<Rightarrow> string \<Rightarrow> bool" where
  "HasSuffix s p = (length p \<le> length s \<and> drop (length s - length p) s = p)"

definition TrimSuffix :: "string \<Rightarrow> string \<Rightarrow> string" where
  "TrimSuffix s p = (if HasSuffix s p then take (length s - length p) s else s)"

text \<open>
  \<^verbatim>\<open>unicode.IsSpace\<close>, read on the UTF-8 bytes: the six ASCII spaces, U+0085 and U+00A0
  (two bytes), and the three-byte encodings of U+1680, U+2000 to U+200A, U+2028, U+2029,
  U+202F, U+205F and U+3000. \<open>spaceLen s\<close> is the width of the white-space rune \<open>s\<close>
  starts with, 0 when it starts with none. A lead byte of one of these encodings is never
  a continuation byte, so the decoder stands on it whenever it is reached.
\<close>

definition asciiSpace :: "char list" where
  "asciiSpace = [CHR 0x09, CHR 0x0A, CHR 0x0B, CHR 0x0C, CHR 0x0D, CHR 0x20]"

definition spaceRunes2 :: "string list" where
  "spaceRunes2 = [[CHR 0xC2, CHR 0x85], [CHR 0xC2, CHR 0xA0]]"

definition spaceRunes3 :: "string list" where
  "spaceRunes3 =
     [[CHR 0xE1, CHR 0x9A, CHR 0x80],
      [CHR 0xE2, CHR 0x80, CHR 0x80], [CHR 0xE2, CHR 0x80, CHR 0x81],
      [CHR 0xE2, CHR 0x80, CHR 0x82], [CHR 0xE2, CHR 0x80, CHR 0x83],
      [CHR 0xE2, CHR 0x80, CHR 0x84], [CHR 0xE2, CHR 0x80, CHR 0x85],
      [CHR 0xE2, CHR 0x80, CHR 0x86], [CHR 0xE2, CHR 0x80, CHR 0x87],
      [CHR 0xE2, CHR 0x80, CHR 0x88], [CHR 0xE2, CHR 0x80, CHR 0x89],
      [CHR 0xE2, CHR 0x80, CHR 0x8A], [CHR 0xE2, CHR 0x80, CHR 0xA8],
      [CHR 0xE2, CHR 0x80, CHR 0xA9], [CHR 0xE2, CHR 0x80, CHR 0xAF],
      [CHR 0xE2, CHR 0x81, CHR 0x9F], [CHR 0xE3, CHR 0x80, CHR 0x80]]"

definition spaceLen :: "string \<Rightarrow> nat" where
  "spaceLen s =
     (case s of
        [] \<Rightarrow> 0
      | c # r \<Rightarrow>
          if c \<in> set asciiSpace then 1
          else if take 2 s \<in> set spaceRunes2 then 2
          else if take 3 s \<in> set spaceRunes3 then 3
          else 0)"

text \<open>
  \<^verbatim>\<open>strings.Fields\<close>: the maximal runs of bytes between white-space runes; \<open>cur\<close> is
  the field being read, reversed.
\<close>

function FieldsAux :: "string \<Rightarrow> string \<Rightarrow> string list" where
  "FieldsAux cur [] = (if cur = [] then [] else [rev cur])"
| "FieldsAux cur (c # r) =
     (if spaceLen (c # r) = 0 then FieldsAux (c # cur) r
      else (if cur = [] then [] else [rev cur]) @ FieldsAux [] (drop (spaceLen (c # r) - 1) r))"
  by pat_completeness auto
termination
  by (relation "measure (\<lambda>(cur, s). length s)") auto

definition Fields :: "string \<Rightarrow> string list" where
  "Fields s = FieldsAux [] s"

text \<open>\<^verbatim>\<open>strings.TrimSpace\<close>: white-space runes removed at both ends.\<close>

function TrimLeftSpace :: "string \<Rightarrow> string" where
  "TrimLeftSpace s = (if s = [] \<or> spaceLen s = 0 then s else TrimLeftSpace (drop (spaceLen s) s))"
  by pat_completeness auto
termination
  by (relation "measure length") (auto simp: neq_Nil_conv)

declare TrimLeftSpace.simps [simp del]

definition endsWithSpace :: "string \<Rightarrow> nat" where
  "endsWithSpace s =
     (if s \<noteq> [] \<and> last s \<in> set asciiSpace then 1
      else if 2 \<le> length s \<and> drop (length s - 2) s \<in> set spaceRunes2 then 2
      else if 3 \<le> length s \<and> drop (length s - 3) s \<in> set spaceRunes3 then 3
      else 0)"

function TrimRightSpace :: "string \<Rightarrow> string" where
  "TrimRightSpace s =
     (if endsWithSpace s = 0 then s else TrimRightSpace (take (length s - endsWithSpace s) s))"
  by pat_completeness auto
termination
  by (relation "measure length") (auto simp: endsWithSpace_def split: if_splits)

declare TrimRightSpace.simps [simp del]

definition TrimSpace :: "string \<Rightarrow> string" where
  "TrimSpace s = TrimRightSpace (TrimLeftSpace s)"

text \<open>
  \<^verbatim>\<open>strings.Split(s, sep)\<close> for a one-byte separator: always at least one part; \<open>cur\<close>
  is the part being read, reversed.
\<close>

fun SplitAux :: "char \<Rightarrow> string \<Rightarrow> string \<Rightarrow> string list" where
  "SplitAux sep cur [] = [rev cur]"
| "SplitAux sep cur (c # r) =
     (if c = sep then rev cur # SplitAux sep [] r else SplitAux sep (c # cur) r)"

definition Split :: "string \<Rightarrow> char \<Rightarrow> string list" where
  "Split s sep = SplitAux sep [] s"

text \<open>
  \<^verbatim>\<open>strconv.Atoi\<close>: an optional sign, then one or more decimal digits and nothing
  else; a value outside the 64-bit range is an error. \<^verbatim>\<open>strconv.Itoa\<close> prints the
  decimal digits, with a minus sign for a negative number.
\<close>

definition isDigit :: "char \<Rightarrow> bool" where
  "isDigit c = (CHR ''0'' \<le> c \<and> c \<le> CHR ''9'')"

definition digitVal :: "char \<Rightarrow> int" where
  "digitVal c = of_char c - 48"

definition digitsVal :: "string \<Rightarrow> int" where
  "digitsVal ds = foldl (\<lambda>a c. 10 * a + digitVal c) 0 ds"

definition maxInt :: int where
  "maxInt = 9223372036854775807"

definition minInt :: int where
  "minInt = - 9223372036854775808"

definition AtoiUnsigned :: "bool \<Rightarrow> string \<Rightarrow> int option" where
  "AtoiUnsigned neg ds =
     (if ds = [] then None
      else if list_all isDigit ds then
        (let n = (if neg then - digitsVal ds else digitsVal ds)
         in if minInt \<le> n \<and> n \<le> maxInt then Some n else None)
      else None)"

definition Atoi :: "string \<Rightarrow> int option" where
  "Atoi s =
     (case s of
        [] \<Rightarrow> None
      | c # r \<Rightarrow>
          if c = CHR ''-'' then AtoiUnsigned True r
          else if c = CHR ''+'' then AtoiUnsigned False r
          else AtoiUnsigned False s)"

definition digitChar :: "int \<Rightarrow> char" where
  "digitChar d = char_of (48 + d)"

function posDigits :: "int \<Rightarrow> string" where
  "posDigits n = (if n < 10 then [digitChar n] else posDigits (n div 10) @ [digitChar (n mod 10)])"
  by pat_completeness auto
termination
  by (relation "measure nat") auto

declare posDigits.simps [simp del]

definition Itoa :: "int \<Rightarrow> string" where
  "Itoa i = (if i < 0 then CHR ''-'' # posDigits (- i) else posDigits i)"

text \<open>
  \<^verbatim>\<open>bufio.Scanner\<close> with the default line splitter: lines end at a newline, one
  carriage return before it is dropped, a last line without newline is returned unless it
  is empty. A line that does not fit the 64 KiB buffer ends the scan: \<^verbatim>\<open>Scan\<close>
  returns false there, and the program never looks at the scanner's error.
\<close>

definition dropCR :: "string \<Rightarrow> string" where
  "dropCR s = (if s \<noteq> [] \<and> last s = CHR 0x0D then butlast s else s)"

definition maxScanTokenSize :: int where
  "maxScanTokenSize = 65536"

text \<open>\<open>lengthAtLeast n xs\<close> is \<open>n \<le> int (length xs)\<close>, counted down on the list.\<close>

fun lengthAtLeast :: "int \<Rightarrow> 'a list \<Rightarrow> bool" where
  "lengthAtLeast n [] = (n \<le> 0)"
| "lengthAtLeast n (x # xs) = (if n \<le> 1 then True else lengthAtLeast (n - 1) xs)"

function scanLines :: "string \<Rightarrow> string list" where
  "scanLines s =
     (if s = [] then []
      else let l = takeWhile (\<lambda>c. c \<noteq> CHR 0x0A) s in
        if lengthAtLeast maxScanTokenSize l then []
        else dropCR l # scanLines (drop (Suc (length l)) s))"
  by pat_completeness auto
termination
  by (relation "measure length") (auto simp: neq_Nil_conv)

declare scanLines.simps [simp del]

subsection \<open>internal/platform\<close>

datatype error =
    LsofFailed
  | PidNotPositive
  | PidTooLarge
  | DirEmpty
  | AbsFailed
  | StatFailed
  | NotADirectory
  | CwdCommandFailed
  | LstatFailed
  | NotASymlink
  | ReadlinkFailed
  | NoCwd

definition ValidatePID :: "int \<Rightarrow> error option" where
  "ValidatePID p =
     (if p \<le> 0 then Some PidNotPositive
      else if p > 2147483647 then Some PidTooLarge
      else None)"

subsection \<open>Listener parsing (detector.go)\<close>

record processInfo =
  pid :: int
  command :: string
  port :: int

text \<open>
  The package-level \<^verbatim>\<open>portRegex\<close>, \<^verbatim>\<open>:(\d+)\s+\(LISTEN\)\<close>. In Go's regexp syntax
  \<^verbatim>\<open>\d\<close> is an ASCII digit and \<^verbatim>\<open>\s\<close> is one of tab, newline, form feed,
  carriage return and space. \<open>portRegexAt s\<close> is the first group of a match that starts
  at the first byte of \<open>s\<close>; \<^verbatim>\<open>FindStringSubmatch\<close> takes the leftmost match.
\<close>

definition reSpace :: "char \<Rightarrow> bool" where
  "reSpace c = (c \<in> set [CHR 0x09, CHR 0x0A, CHR 0x0C, CHR 0x0D, CHR 0x20])"

definition portRegexAt :: "string \<Rightarrow> string option" where
  "portRegexAt s =
     (case s of
        [] \<Rightarrow> None
      | c # r \<Rightarrow>
          if c = CHR '':'' then
            (let ds = takeWhile isDigit r;
                 r1 = dropWhile isDigit r;
                 ws = takeWhile reSpace r1;
                 r2 = dropWhile reSpace r1
             in if ds \<noteq> [] \<and> ws \<noteq> [] \<and> HasPrefix r2 ''(LISTEN)'' then Some ds else None)
          else None)"

fun FindStringSubmatch :: "string \<Rightarrow> string option" where
  "FindStringSubmatch [] = None"
| "FindStringSubmatch (c # r) =
     (case portRegexAt (c # r) of
        Some ds \<Rightarrow> Some ds
      | None \<Rightarrow> FindStringSubmatch r)"

definition extractPort :: "string \<Rightarrow> int" where
  "extractPort line =
     (case FindStringSubmatch line of
        Some m \<Rightarrow> (case Atoi m of None \<Rightarrow> 0 | Some prt \<Rightarrow> prt)
      | None \<Rightarrow>
          (let fields = Fields line in
             if length fields \<ge> 9 then
               (let parts = Split (fields ! 8) (CHR '':'') in
                  if length parts > 0 then
                    (case Atoi (parts ! (length parts - 1)) of None \<Rightarrow> 0 | Some prt \<Rightarrow> prt)
                  else 0)
             else 0))"

definition isDevPort :: "int \<Rightarrow> bool" where
  "isDevPort prt =
     (if prt < 1024 then False
      else if prt \<ge> 3000 then True
      else if prt = 2000 then True
      else False)"

text \<open>The first pass of \<^verbatim>\<open>FindServers\<close>; \<^verbatim>\<open>pids\<close> is \<open>map pid\<close> of its result.\<close>

fun firstPass :: "string list \<Rightarrow> processInfo list" where
  "firstPass [] = []"
| "firstPass (line # rest) =
     (if HasPrefix line ''COMMAND'' then firstPass rest
      else let fields = Fields line in
        if length fields < 9 then firstPass rest
        else let pidStr = fields ! 1; cmd = fields ! 0; prt = extractPort line in
          if prt = 0 \<or> \<not> isDevPort prt then firstPass rest
          else (case Atoi pidStr of
                  None \<Rightarrow> firstPass rest
                | Some p \<Rightarrow>
                    (case ValidatePID p of
                       Some err \<Rightarrow> firstPass rest
                     | None \<Rightarrow> \<lparr>pid = p, command = cmd, port = prt\<rparr> # firstPass rest)))"

subsection \<open>Paths (path/filepath on Unix)\<close>

text \<open>\<^verbatim>\<open>strings.Join\<close>.\<close>

fun stringsJoin :: "string list \<Rightarrow> string \<Rightarrow> string" where
  "stringsJoin [] sep = []"
| "stringsJoin [x] sep = x"
| "stringsJoin (x # y # ys) sep = x @ sep @ stringsJoin (y # ys) sep"

text \<open>
  \<^verbatim>\<open>filepath.Clean\<close>: empty and \<^verbatim>\<open>.\<close> elements go, a \<^verbatim>\<open>..\<close> removes the
  element before it, is dropped at the root, and is kept at the front of a relative path;
  \<open>out\<close> holds the elements written so far.
\<close>

fun cleanElems :: "bool \<Rightarrow> string list \<Rightarrow> string list \<Rightarrow> string list" where
  "cleanElems rooted out [] = out"
| "cleanElems rooted out (e # es) =
     (if e = [] \<or> e = ''.'' then cleanElems rooted out es
      else if e = ''..'' then
        (if out \<noteq> [] \<and> last out \<noteq> ''..'' then cleanElems rooted (butlast out) es
         else if rooted then cleanElems rooted out es
         else cleanElems rooted (out @ [''..'']) es)
      else cleanElems rooted (out @ [e]) es)"

definition Clean :: "string \<Rightarrow> string" where
  "Clean p =
     (if p = [] then ''.''
      else let rooted = (hd p = CHR ''/'');
               out = cleanElems rooted [] (Split p (CHR ''/''))
           in if rooted then CHR ''/'' # stringsJoin out ''/''
              else if out = [] then ''.''
              else stringsJoin out ''/'')"

text \<open>\<^verbatim>\<open>filepath.Join\<close> of two elements: from the first non-empty element on.\<close>

definition Join :: "string \<Rightarrow> string \<Rightarrow> string" where
  "Join a b =
     (if a \<noteq> [] then Clean (a @ ''/'' @ b)
      else if b \<noteq> [] then Clean b
      else [])"

text \<open>\<^verbatim>\<open>filepath.Base\<close>.\<close>

definition Base :: "string \<Rightarrow> string" where
  "Base p =
     (if p = [] then ''.''
      else let q = rev (dropWhile (\<lambda>c. c = CHR ''/'') (rev p))
           in if q = [] then ''/''
              else rev (takeWhile (\<lambda>c. c \<noteq> CHR ''/'') (rev q)))"

subsection \<open>The result type and the outside world\<close>

record Server =
  Repo :: string
  Branch :: string
  Process :: string
  Port :: int
  PID :: int
  CWD :: string

record gitInfo =
  repo :: string
  branch :: string

text \<open>
  What the program asks of the operating system, of \<^verbatim>\<open>lsof\<close> and of \<^verbatim>\<open>git\<close>.
  A command's field gives its standard output when \<^verbatim>\<open>cmd.Output\<close> returns no error:
  \<^item> \<open>lsofListen\<close>: \<^verbatim>\<open>lsof -iTCP -sTCP:LISTEN -n -P\<close>;
  \<^item> \<open>lsofCwd a\<close>: \<^verbatim>\<open>lsof -a -p a -d cwd -Fn\<close>, for one PID or a comma-joined list;
  \<^item> \<open>lstatSymlink l\<close>: \<^verbatim>\<open>os.Lstat(l)\<close>, and whether the mode has the symlink bit;
  \<^item> \<open>readlink\<close>: \<^verbatim>\<open>os.Readlink\<close>; \<open>getwd\<close>: \<^verbatim>\<open>os.Getwd\<close>;
  \<^item> \<open>statIsDir p\<close>: \<^verbatim>\<open>os.Stat(p)\<close>, and whether it is a directory;
  \<^item> \<open>gitRevParseGitDir d\<close>: whether \<^verbatim>\<open>git -C d rev-parse --git-dir\<close> runs without error;
  \<^item> \<open>gitRemoteOriginURL d\<close>: \<^verbatim>\<open>git -C d config --get remote.origin.url\<close>;
  \<^item> \<open>gitAbbrevRefHEAD d\<close>: \<^verbatim>\<open>git -C d rev-parse --abbrev-ref HEAD\<close>;
  \<^item> \<open>sortSlice\<close>: the runtime's \<^verbatim>\<open>sort.Slice\<close>, which the library documents as
    sorting by the given \<^verbatim>\<open>less\<close> and as not guaranteed to be stable.
  The answers do not change during a run, so the goroutines of
  \<^verbatim>\<open>batchCheckGitRepos\<close>, \<^verbatim>\<open>batchGetGitInfo\<close> and \<^verbatim>\<open>getGitInfoParallel\<close>,
  which write distinct keys or fields under a mutex and are all awaited, compute the same
  maps in any schedule.
\<close>

record env =
  lsofListen :: "string option"
  lsofCwd :: "string \<Rightarrow> string option"
  lstatSymlink :: "string \<Rightarrow> bool option"
  readlink :: "string \<Rightarrow> string option"
  getwd :: "string option"
  statIsDir :: "string \<Rightarrow> bool option"
  gitRevParseGitDir :: "string \<Rightarrow> bool"
  gitRemoteOriginURL :: "string \<Rightarrow> string option"
  gitAbbrevRefHEAD :: "string \<Rightarrow> string option"
  sortSlice :: "(Server \<Rightarrow> Server \<Rightarrow> bool) \<Rightarrow> Server list \<Rightarrow> Server list"

text \<open>\<^verbatim>\<open>filepath.Abs\<close>.\<close>

definition Abs :: "env \<Rightarrow> string \<Rightarrow> string option" where
  "Abs e p =
     (if HasPrefix p ''/'' then Some (Clean p)
      else (case getwd e of None \<Rightarrow> None | Some wd \<Rightarrow> Some (Join wd p)))"

definition IsMacOS :: "env \<Rightarrow> bool" where
  "IsMacOS e = (statIsDir e ''/System/Library/CoreServices/Finder.app'' \<noteq> None)"

definition ValidateDir :: "env \<Rightarrow> string \<Rightarrow> error + string" where
  "ValidateDir e dir =
     (if dir = [] then Inl DirEmpty
      else (case Abs e dir of
              None \<Rightarrow> Inl AbsFailed
            | Some cleaned \<Rightarrow>
                (case statIsDir e cleaned of
                   None \<Rightarrow> Inl StatFailed
                 | Some isDir \<Rightarrow> if \<not> isDir then Inl NotADirectory else Inr cleaned)))"

subsection \<open>The git helpers\<close>

definition IsRepo :: "env \<Rightarrow> string \<Rightarrow> bool" where
  "IsRepo e dir =
     (case ValidateDir e dir of
        Inl err \<Rightarrow> False
      | Inr cleanedDir \<Rightarrow>
          if statIsDir e (Join cleanedDir ''.git'') = Some True then True
          else gitRevParseGitDir e cleanedDir)"

definition GetRepoName :: "env \<Rightarrow> string \<Rightarrow> string" where
  "GetRepoName e dir =
     (case ValidateDir e dir of
        Inl err \<Rightarrow> Base dir
      | Inr cleanedDir \<Rightarrow>
          (case gitRemoteOriginURL e cleanedDir of
             None \<Rightarrow> Base cleanedDir
           | Some output \<Rightarrow>
               if length output > 0 then
                 (let url = TrimSpace output; parts = Split url (CHR ''/'') in
                    if length parts = 0 then Base cleanedDir
                    else TrimSuffix (parts ! (length parts - 1)) ''.git'')
               else Base cleanedDir))"

definition GetBranch :: "env \<Rightarrow> string \<Rightarrow> string" where
  "GetBranch e dir =
     (case ValidateDir e dir of
        Inl err \<Rightarrow> ''N/A''
      | Inr cleanedDir \<Rightarrow>
          (case gitAbbrevRefHEAD e cleanedDir of
             None \<Rightarrow> ''N/A''
           | Some output \<Rightarrow> TrimSpace output))"

definition getGitInfoParallel :: "env \<Rightarrow> string \<Rightarrow> gitInfo" where
  "getGitInfoParallel e cwd = \<lparr>repo = GetRepoName e cwd, branch = GetBranch e cwd\<rparr>"

subsection \<open>Working directories (detector.go)\<close>

text \<open>
  A Go map is an association list with distinct keys: \<open>map_of m k\<close> reads it,
  \<open>AList.update k v m\<close> is \<^verbatim>\<open>m[k] = v\<close>, and a \<^verbatim>\<open>range\<close> loop visits its pairs.
\<close>

fun firstNLine :: "env \<Rightarrow> string list \<Rightarrow> error + string" where
  "firstNLine e [] = Inl NoCwd"
| "firstNLine e (line # rest) =
     (if HasPrefix line ''n'' then
        (case Abs e (TrimPrefix line ''n'') of
           None \<Rightarrow> Inl AbsFailed
         | Some cleaned \<Rightarrow> Inr cleaned)
      else firstNLine e rest)"

definition procCwd :: "env \<Rightarrow> int \<Rightarrow> error + string" where
  "procCwd e p =
     (let link = ''/proc/'' @ Itoa p @ ''/cwd'' in
        case lstatSymlink e link of
          None \<Rightarrow> Inl LstatFailed
        | Some isLink \<Rightarrow>
            if \<not> isLink then Inl NotASymlink
            else (case readlink e link of
                    None \<Rightarrow> Inl ReadlinkFailed
                  | Some cwd \<Rightarrow>
                      (case Abs e cwd of
                         None \<Rightarrow> Inl AbsFailed
                       | Some cleaned \<Rightarrow> Inr cleaned)))"

definition getProcessCWD :: "env \<Rightarrow> int \<Rightarrow> error + string" where
  "getProcessCWD e p =
     (case ValidatePID p of
        Some err \<Rightarrow> Inl err
      | None \<Rightarrow>
          if IsMacOS e then
            (case lsofCwd e (Itoa p) of
               None \<Rightarrow> Inl CwdCommandFailed
             | Some output \<Rightarrow> firstNLine e (scanLines output))
          else procCwd e p)"

fun fallbackLoop :: "env \<Rightarrow> int list \<Rightarrow> (int \<times> string) list \<Rightarrow> (int \<times> string) list" where
  "fallbackLoop e [] cwdMap = cwdMap"
| "fallbackLoop e (p # rest) cwdMap =
     (case getProcessCWD e p of
        Inl err \<Rightarrow> fallbackLoop e rest cwdMap
      | Inr cwd \<Rightarrow>
          if cwd \<noteq> [] then fallbackLoop e rest (AList.update p cwd cwdMap)
          else fallbackLoop e rest cwdMap)"

definition fallbackGetCWDs :: "env \<Rightarrow> int list \<Rightarrow> (int \<times> string) list" where
  "fallbackGetCWDs e pids = fallbackLoop e pids []"

text \<open>The macOS parse of \<^verbatim>\<open>p<pid>\<close> and \<^verbatim>\<open>n<path>\<close> records.\<close>

fun batchParse :: "env \<Rightarrow> string list \<Rightarrow> int \<Rightarrow> (int \<times> string) list \<Rightarrow> (int \<times> string) list" where
  "batchParse e [] currentPID cwdMap = cwdMap"
| "batchParse e (line # rest) currentPID cwdMap =
     (if HasPrefix line ''p'' then
        (case Atoi (TrimPrefix line ''p'') of
           Some p \<Rightarrow> batchParse e rest p cwdMap
         | None \<Rightarrow> batchParse e rest currentPID cwdMap)
      else if HasPrefix line ''n'' \<and> currentPID \<noteq> 0 then
        (case Abs e (TrimPrefix line ''n'') of
           Some cleaned \<Rightarrow> batchParse e rest 0 (AList.update currentPID cleaned cwdMap)
         | None \<Rightarrow> batchParse e rest 0 cwdMap)
      else batchParse e rest currentPID cwdMap)"

fun procLoop :: "env \<Rightarrow> int list \<Rightarrow> (int \<times> string) list \<Rightarrow> (int \<times> string) list" where
  "procLoop e [] cwdMap = cwdMap"
| "procLoop e (p # rest) cwdMap =
     (case procCwd e p of
        Inl err \<Rightarrow> procLoop e rest cwdMap
      | Inr cleaned \<Rightarrow> procLoop e rest (AList.update p cleaned cwdMap))"

definition batchGetProcessCWDs :: "env \<Rightarrow> int list \<Rightarrow> (int \<times> string) list" where
  "batchGetProcessCWDs e pids =
     (if length pids = 0 then []
      else if IsMacOS e then
        (case lsofCwd e (stringsJoin (map Itoa pids) '','') of
           None \<Rightarrow> fallbackGetCWDs e pids
         | Some output \<Rightarrow> batchParse e (scanLines output) 0 [])
      else procLoop e pids [])"

subsection \<open>Repository checks over the distinct directories\<close>

definition batchCheckGitRepos :: "env \<Rightarrow> (string \<times> bool) list \<Rightarrow> (string \<times> bool) list" where
  "batchCheckGitRepos e dirs =
     foldl (\<lambda>results d. AList.update d (IsRepo e d) results) [] (map fst dirs)"

definition batchGetGitInfo :: "env \<Rightarrow> (string \<times> bool) list \<Rightarrow> (string \<times> gitInfo) list" where
  "batchGetGitInfo e dirs =
     foldl (\<lambda>results d. AList.update d (getGitInfoParallel e d) results) [] (map fst dirs)"

subsection \<open>Correlation, deduplication and sorting\<close>

text \<open>\<^verbatim>\<open>fmt.Sprintf("%s|%s|%s|%d", ...)\<close>.\<close>

definition serverKey :: "string \<Rightarrow> string \<Rightarrow> string \<Rightarrow> int \<Rightarrow> string" where
  "serverKey r b c p = r @ ''|'' @ b @ ''|'' @ c @ ''|'' @ Itoa p"

text \<open>A missing key of a \<^verbatim>\<open>map[string]bool\<close> reads as false.\<close>

definition lookupBool :: "(string \<times> bool) list \<Rightarrow> string \<Rightarrow> bool" where
  "lookupBool m k = (case map_of m k of None \<Rightarrow> False | Some b \<Rightarrow> b)"

fun secondPass ::
  "(int \<times> string) list \<Rightarrow> (string \<times> bool) list \<Rightarrow> (string \<times> gitInfo) list \<Rightarrow>
   processInfo list \<Rightarrow> string set \<Rightarrow> Server list \<Rightarrow> Server list" where
  "secondPass cwdMap gitRepoCache gitInfoCache [] seenServers servers = servers"
| "secondPass cwdMap gitRepoCache gitInfoCache (proc # rest) seenServers servers =
     (case map_of cwdMap (pid proc) of
        None \<Rightarrow> secondPass cwdMap gitRepoCache gitInfoCache rest seenServers servers
      | Some cwd \<Rightarrow>
          if cwd = [] then secondPass cwdMap gitRepoCache gitInfoCache rest seenServers servers
          else if \<not> lookupBool gitRepoCache cwd then
            secondPass cwdMap gitRepoCache gitInfoCache rest seenServers servers
          else
            (case map_of gitInfoCache cwd of
               None \<Rightarrow> secondPass cwdMap gitRepoCache gitInfoCache rest seenServers servers
             | Some info \<Rightarrow>
                 (let key = serverKey (repo info) (branch info) (command proc) (port proc) in
                    if key \<in> seenServers then
                      secondPass cwdMap gitRepoCache gitInfoCache rest seenServers servers
                    else
                      secondPass cwdMap gitRepoCache gitInfoCache rest (insert key seenServers)
                        (servers @
                         [\<lparr>Repo = repo info, Branch = branch info, Process = command proc,
                           Port = port proc, PID = 0, CWD = cwd\<rparr>]))))"

definition serverLess :: "Server \<Rightarrow> Server \<Rightarrow> bool" where
  "serverLess a b =
     (if Repo a \<noteq> Repo b then Repo a < Repo b
      else if Branch a \<noteq> Branch b then Branch a < Branch b
      else Port a < Port b)"

text \<open>The maps \<^verbatim>\<open>FindServers\<close> builds between its two passes.\<close>

definition uniqueCWDsOf :: "(int \<times> string) list \<Rightarrow> (string \<times> bool) list" where
  "uniqueCWDsOf cwdMap =
     foldl (\<lambda>u cwd. if cwd \<noteq> [] then AList.update cwd True u else u) [] (map snd cwdMap)"

definition gitRepoDirsOf :: "(string \<times> bool) list \<Rightarrow> (string \<times> bool) list" where
  "gitRepoDirsOf gitRepoCache =
     foldl (\<lambda>g (dir, isRepo). if isRepo then AList.update dir True g else g) [] gitRepoCache"

text \<open>
  \<^verbatim>\<open>FindServers\<close>, in two parts: \<open>buildServers\<close> is the function from the first pass to
  the end of the second, on the output of the enumeration command; \<open>FindServers\<close> runs
  the command, returns its error, and sorts what \<open>buildServers\<close> produced.
\<close>

definition buildServers :: "env \<Rightarrow> string \<Rightarrow> Server list" where
  "buildServers e output =
     (let processes = firstPass (scanLines output);
          pids = map pid processes;
          cwdMap = batchGetProcessCWDs e pids;
          uniqueCWDs = uniqueCWDsOf cwdMap;
          gitRepoCache = batchCheckGitRepos e uniqueCWDs;
          gitRepoDirs = gitRepoDirsOf gitRepoCache;
          gitInfoCache = batchGetGitInfo e gitRepoDirs
      in secondPass cwdMap gitRepoCache gitInfoCache processes {} [])"

definition FindServers :: "env \<Rightarrow> error + Server list" where
  "FindServers e =
     (case lsofListen e of
        None \<Rightarrow> Inl LsofFailed
      | Some output \<Rightarrow> Inr (sortSlice e serverLess (buildServers e output)))"

subsection \<open>Notions used to state the properties\<close>

text \<open>The deduplication key of an entry, as the second pass computes it.\<close>

definition keyOf :: "Server \<Rightarrow> string" where
  "keyOf s = serverKey (Repo s) (Branch s) (Process s) (Port s)"

text \<open>
  The entry the second pass builds for a listener record before it looks at the keys seen
  so far: the record needs a non-empty working directory that is a repository.
\<close>

definition candidate :: "env \<Rightarrow> (int \<times> string) list \<Rightarrow> processInfo \<Rightarrow> Server option" where
  "candidate e cwdMap proc =
     (case map_of cwdMap (pid proc) of
        None \<Rightarrow> None
      | Some cwd \<Rightarrow>
          if cwd \<noteq> [] \<and> IsRepo e cwd then
            Some \<lparr>Repo = GetRepoName e cwd, Branch = GetBranch e cwd, Process = command proc,
                  Port = port proc, PID = 0, CWD = cwd\<rparr>
          else None)"

fun dedupKeys :: "string set \<Rightarrow> Server list \<Rightarrow> Server list" where
  "dedupKeys seen [] = []"
| "dedupKeys seen (s # ss) =
     (if keyOf s \<in> seen then dedupKeys seen ss else s # dedupKeys (insert (keyOf s) seen) ss)"

text \<open>
  The contract of \<^verbatim>\<open>sort.Slice\<close> for the comparison \<open>FindServers\<close> passes: the result
  holds the same entries and no entry is less than one before it.
\<close>

definition sortSliceSpec :: "((Server \<Rightarrow> Server \<Rightarrow> bool) \<Rightarrow> Server list \<Rightarrow> Server list) \<Rightarrow> bool" where
  "sortSliceSpec srt =
     (\<forall>xs. mset (srt serverLess xs) = mset xs \<and>
           sorted_wrt (\<lambda>a b. \<not> serverLess b a) (srt serverLess xs))"

text \<open>
  Two sorting functions of the Go library that meet the contract. \<open>insertionSort\<close> is
  \<^verbatim>\<open>insertionSort_func\<close>: each element in turn is swapped with its left neighbour
  while it is less than that neighbour (\<open>siftLeft\<close>, on the part already visited, nearest
  neighbour first). It is all that \<^verbatim>\<open>sort.Slice\<close> of Go 1.19 and later runs on a
  slice of at most 12 elements, and it keeps ties in order. \<open>shellInsertionSort\<close> is what
  \<^verbatim>\<open>sort.Slice\<close> of Go 1.16 to 1.18 runs on a slice of at most 12 elements (the
  repository's README asks for Go 1.16 or later): one pass that swaps the elements at
  \<open>i\<close> and \<open>i - 6\<close> when the first is less than the second, then the insertion sort. The
  pass can carry an element over one it ties with.
\<close>

fun siftLeft :: "('a \<Rightarrow> 'a \<Rightarrow> bool) \<Rightarrow> 'a \<Rightarrow> 'a list \<Rightarrow> 'a list" where
  "siftLeft lt x [] = [x]"
| "siftLeft lt x (y # ys) = (if lt x y then y # siftLeft lt x ys else x # y # ys)"

definition insertionSort :: "('a \<Rightarrow> 'a \<Rightarrow> bool) \<Rightarrow> 'a list \<Rightarrow> 'a list" where
  "insertionSort lt xs = rev (foldl (\<lambda>acc x. siftLeft lt x acc) [] xs)"

function shellPass :: "('a \<Rightarrow> 'a \<Rightarrow> bool) \<Rightarrow> nat \<Rightarrow> 'a list \<Rightarrow> 'a list" where
  "shellPass lt i xs =
     (if i < length xs then
        shellPass lt (Suc i)
          (if lt (xs ! i) (xs ! (i - 6)) then xs[i := xs ! (i - 6), i - 6 := xs ! i] else xs)
      else xs)"
  by pat_completeness auto
termination
  by (relation "measure (\<lambda>(lt, i, xs). length xs - i)") auto

declare shellPass.simps [simp del]

definition shellInsertionSort :: "('a \<Rightarrow> 'a \<Rightarrow> bool) \<Rightarrow> 'a list \<Rightarrow> 'a list" where
  "shellInsertionSort lt xs =
     (if length xs > 1 then insertionSort lt (shellPass lt 6 xs) else xs)"

text \<open>
  The port pattern, stated on the text: \<open>listenPatternAt s ds\<close> holds when \<open>s\<close> starts
  with a colon, the digits \<open>ds\<close>, at least one white-space byte of the pattern, and
  \<^verbatim>\<open>(LISTEN)\<close>.
\<close>

definition listenPatternAt :: "string \<Rightarrow> string \<Rightarrow> bool" where
  "listenPatternAt s ds =
     (\<exists>ws post. s = CHR '':'' # ds @ ws @ ''(LISTEN)'' @ post \<and>
        ds \<noteq> [] \<and> list_all isDigit ds \<and> ws \<noteq> [] \<and> list_all reSpace ws)"

text \<open>
  Port extraction as the specification words its fallback, for comparison with
  \<open>extractPort\<close>: the pattern first, and otherwise the trailing numeric suffix of the ninth
  field, which is the longest run of digits the field ends with.
\<close>

definition trailingDigits :: "string \<Rightarrow> string" where
  "trailingDigits f = rev (takeWhile isDigit (rev f))"

definition extractPortSpec :: "string \<Rightarrow> int" where
  "extractPortSpec line =
     (case FindStringSubmatch line of
        Some m \<Rightarrow> (case Atoi m of None \<Rightarrow> 0 | Some prt \<Rightarrow> prt)
      | None \<Rightarrow>
          (let fields = Fields line in
             if length fields \<ge> 9 then
               (case Atoi (trailingDigits (fields ! 8)) of None \<Rightarrow> 0 | Some prt \<Rightarrow> prt)
             else 0))"

text \<open>The number of key separators in a string.\<close>

definition bars :: "string \<Rightarrow> nat" where
  "bars s = length (filter (\<lambda>c. c = CHR ''|'') s)"

subsection \<open>Example runs\<close>

text \<open>
  Concrete environments. \<open>listenOut\<close> puts the header line of \<^verbatim>\<open>lsof\<close> before the
  given lines. \<open>workEnv\<close> is a Linux machine (no Finder application, working directories
  read from \<^verbatim>\<open>/proc\<close>) with two \<^verbatim>\<open>node\<close> workers of one checkout on port 3001, a
  \<^verbatim>\<open>ruby\<close> server outside any repository, a line that is not a listener, and a
  \<^verbatim>\<open>puma\<close> server in a repository whose branch query fails. \<open>tieEnv\<close> has seven
  listeners, two of them different commands on one port of one checkout, and the sorting
  function of Go 1.16 to 1.18; \<open>collideEnv\<close> has
  a directory and a branch whose names contain the key separator; \<open>emptyUrlEnv\<close> has an
  origin URL set to the empty string, for which git prints an empty line; \<open>macEnv\<close> is a
  macOS machine whose batched working-directory query fails.
\<close>

definition listenOut :: "string list \<Rightarrow> string" where
  "listenOut ls = concat (map (\<lambda>l. l @ [CHR 0x0A]) (''COMMAND PID USER FD TYPE DEVICE SIZE/OFF NODE NAME'' # ls))"

definition workOut :: string where
  "workOut = listenOut
        [''node 100 dev 22u IPv4 0x1 0t0 TCP *:3001 (LISTEN)'',
         ''node 101 dev 22u IPv4 0x1 0t0 TCP *:3001 (LISTEN)'',
         ''ruby 200 dev 10u IPv4 0x2 0t0 TCP 127.0.0.1:3000 (LISTEN)'',
         ''lsof: WARNING: can't stat() fuse file system'',
         ''puma 300 dev 11u IPv6 0x3 0t0 TCP [::1]:9292 (LISTEN)'']"

definition workEnv :: env where
  "workEnv =
     \<lparr>lsofListen = Some workOut,
      lsofCwd = (\<lambda>a. None),
      lstatSymlink = (\<lambda>l. if l \<in> set [''/proc/100/cwd'', ''/proc/101/cwd'', ''/proc/200/cwd'', ''/proc/300/cwd'']
                            then Some True else None),
      readlink = (\<lambda>l. if l = ''/proc/100/cwd'' then Some ''/repo-a''
                       else if l = ''/proc/101/cwd'' then Some ''/repo-a/sub''
                       else if l = ''/proc/200/cwd'' then Some ''/repo-b''
                       else if l = ''/proc/300/cwd'' then Some ''/repo-c''
                       else None),
      getwd = Some ''/'',
      statIsDir = (\<lambda>p. if p \<in> set [''/repo-a'', ''/repo-a/sub'', ''/repo-b'', ''/repo-c'', ''/repo-a/.git'', ''/repo-c/.git'']
                         then Some True else None),
      gitRevParseGitDir = (\<lambda>d. d \<in> set [''/repo-a'', ''/repo-a/sub'', ''/repo-c'']),
      gitRemoteOriginURL = (\<lambda>d. if d \<in> set [''/repo-a'', ''/repo-a/sub'']
                                  then Some (''git@host:org/repo-a.git'' @ [CHR 0x0A]) else None),
      gitAbbrevRefHEAD = (\<lambda>d. if d \<in> set [''/repo-a'', ''/repo-a/sub''] then Some (''main'' @ [CHR 0x0A]) else None),
      sortSlice = insertionSort\<rparr>"

definition tieOut :: string where
  "tieOut = listenOut
        [''node 10 dev 22u IPv4 0x1 0t0 TCP *:3000 (LISTEN)'',
         ''nginx 11 dev 8u IPv4 0x1 0t0 TCP *:3000 (LISTEN)'',
         ''node 12 dev 22u IPv4 0x1 0t0 TCP *:4001 (LISTEN)'',
         ''node 13 dev 22u IPv4 0x1 0t0 TCP *:4002 (LISTEN)'',
         ''node 14 dev 22u IPv4 0x1 0t0 TCP *:4003 (LISTEN)'',
         ''node 15 dev 22u IPv4 0x1 0t0 TCP *:4004 (LISTEN)'',
         ''node 16 dev 22u IPv4 0x1 0t0 TCP *:3001 (LISTEN)'']"

definition tieEnv :: env where
  "tieEnv =
     \<lparr>lsofListen = Some tieOut,
      lsofCwd = (\<lambda>a. None),
      lstatSymlink = (\<lambda>l. if l \<in> set [''/proc/10/cwd'', ''/proc/11/cwd'', ''/proc/12/cwd'',
                                ''/proc/13/cwd'', ''/proc/14/cwd'', ''/proc/15/cwd'',
                                ''/proc/16/cwd'']
                            then Some True else None),
      readlink = (\<lambda>l. if l = ''/proc/16/cwd'' then Some ''/repo-a'' else Some ''/repo-b''),
      getwd = Some ''/'',
      statIsDir = (\<lambda>p. if p \<in> set [''/repo-a'', ''/repo-b'', ''/repo-a/.git'', ''/repo-b/.git'']
                         then Some True else None),
      gitRevParseGitDir = (\<lambda>d. False),
      gitRemoteOriginURL = (\<lambda>d. None),
      gitAbbrevRefHEAD = (\<lambda>d. Some (''main'' @ [CHR 0x0A])),
      sortSlice = shellInsertionSort\<rparr>"

definition collideOut :: string where
  "collideOut = listenOut
        [''node 100 dev 22u IPv4 0x1 0t0 TCP 127.0.0.1:3000 (LISTEN)'',
         ''node 200 dev 22u IPv6 0x2 0t0 TCP [::1]:3000 (LISTEN)'']"

definition collideEnv :: env where
  "collideEnv =
     \<lparr>lsofListen = Some collideOut,
      lsofCwd = (\<lambda>a. None),
      lstatSymlink = (\<lambda>l. if l \<in> set [''/proc/100/cwd'', ''/proc/200/cwd''] then Some True else None),
      readlink = (\<lambda>l. if l = ''/proc/100/cwd'' then Some ''/w/a|b''
                       else if l = ''/proc/200/cwd'' then Some ''/w/a''
                       else None),
      getwd = Some ''/'',
      statIsDir = (\<lambda>p. if p \<in> set [''/w/a|b'', ''/w/a'', ''/w/a|b/.git'', ''/w/a/.git'']
                         then Some True else None),
      gitRevParseGitDir = (\<lambda>d. d \<in> set [''/w/a|b'', ''/w/a'']),
      gitRemoteOriginURL = (\<lambda>d. None),
      gitAbbrevRefHEAD = (\<lambda>d. if d = ''/w/a|b'' then Some (''c'' @ [CHR 0x0A])
                               else if d = ''/w/a'' then Some (''b|c'' @ [CHR 0x0A]) else None),
      sortSlice = insertionSort\<rparr>"

definition emptyUrlEnv :: env where
  "emptyUrlEnv = workEnv\<lparr>gitRemoteOriginURL := (\<lambda>d. Some [CHR 0x0A])\<rparr>"

definition macEnv :: env where
  "macEnv =
     \<lparr>lsofListen = None,
      lsofCwd = (\<lambda>a. if a = ''100'' then Some (''p100'' @ [CHR 0x0A] @ ''fcwd'' @ [CHR 0x0A] @ ''n/repo-a'' @ [CHR 0x0A])
                      else None),
      lstatSymlink = (\<lambda>l. None),
      readlink = (\<lambda>l. None),
      getwd = Some ''/'',
      statIsDir = (\<lambda>p. if p \<in> set [''/System/Library/CoreServices/Finder.app'', ''/repo-a''] then Some True else None),
      gitRevParseGitDir = (\<lambda>d. False),
      gitRemoteOriginURL = (\<lambda>d. None),
      gitAbbrevRefHEAD = (\<lambda>d. None),
      sortSlice = insertionSort\<rparr>"

section \<open>Properties\<close>

subsection \<open>The caches and the second pass\<close>

lemma map_of_foldl_update:
  "map_of (foldl (\<lambda>m d. AList.update d (f d) m) m0 ds) k =
     (if k \<in> set ds then Some (f k) else map_of m0 k)"
  by (induction ds arbitrary: m0) (auto simp: update_conv')

lemma map_of_batchCheckGitRepos:
  "map_of (batchCheckGitRepos e dirs) d =
     (if d \<in> fst ` set dirs then Some (IsRepo e d) else None)"
  by (simp add: batchCheckGitRepos_def map_of_foldl_update)

lemma map_of_batchGetGitInfo:
  "map_of (batchGetGitInfo e dirs) d =
     (if d \<in> fst ` set dirs then Some (getGitInfoParallel e d) else None)"
  by (simp add: batchGetGitInfo_def map_of_foldl_update)

lemma keys_foldl_cond_update:
  "dom (map_of (foldl (\<lambda>u c. if P c then AList.update c True u else u) u0 cs)) =
     dom (map_of u0) \<union> {c \<in> set cs. P c}"
proof (induction cs arbitrary: u0)
  case Nil
  then show ?case by simp
next
  case (Cons c cs)
  show ?case
    by (cases "P c") (auto simp: Cons.IH update_conv' split: if_splits)
qed

lemma keys_uniqueCWDsOf:
  "fst ` set (uniqueCWDsOf cwdMap) = {c \<in> snd ` set cwdMap. c \<noteq> []}"
  unfolding uniqueCWDsOf_def dom_map_of_conv_image_fst [symmetric] keys_foldl_cond_update
  by auto

lemma keys_foldl_pair_update:
  "dom (map_of (foldl (\<lambda>g (dir, isRepo). if isRepo then AList.update dir True g else g) g0 ps)) =
     dom (map_of g0) \<union> {d. (d, True) \<in> set ps}"
proof (induction ps arbitrary: g0)
  case Nil
  then show ?case by simp
next
  case (Cons p ps)
  obtain d b where p: "p = (d, b)" by (cases p)
  show ?case
    by (cases b) (auto simp: p Cons.IH update_conv' split: if_splits)
qed

lemma keys_gitRepoDirsOf:
  "fst ` set (gitRepoDirsOf cache) = {d. (d, True) \<in> set cache}"
  unfolding gitRepoDirsOf_def dom_map_of_conv_image_fst [symmetric] keys_foldl_pair_update
  by auto

lemma distinct_foldl_update:
  "distinct (map fst m0) \<Longrightarrow>
   distinct (map fst (foldl (\<lambda>m d. AList.update d (f d) m) m0 ds))"
  by (induction ds arbitrary: m0) (auto simp: distinct_update)

lemma distinct_batchCheckGitRepos: "distinct (map fst (batchCheckGitRepos e dirs))"
  by (simp add: batchCheckGitRepos_def distinct_foldl_update)

lemma in_batchCheckGitRepos:
  "((d, b) \<in> set (batchCheckGitRepos e dirs)) = (map_of (batchCheckGitRepos e dirs) d = Some b)"
  using distinct_batchCheckGitRepos by (metis map_of_eq_Some_iff)

text \<open>What the caches of a run answer for a directory.\<close>

lemma lookupBool_cache:
  "lookupBool (batchCheckGitRepos e (uniqueCWDsOf cwdMap)) cwd =
     (cwd \<in> snd ` set cwdMap \<and> cwd \<noteq> [] \<and> IsRepo e cwd)"
  by (auto simp: lookupBool_def map_of_batchCheckGitRepos keys_uniqueCWDsOf)

lemma gitInfoCache_lookup:
  "map_of (batchGetGitInfo e (gitRepoDirsOf (batchCheckGitRepos e (uniqueCWDsOf cwdMap)))) cwd =
     (if cwd \<in> snd ` set cwdMap \<and> cwd \<noteq> [] \<and> IsRepo e cwd
      then Some (getGitInfoParallel e cwd) else None)"
  by (auto simp: map_of_batchGetGitInfo keys_gitRepoDirsOf in_batchCheckGitRepos
      map_of_batchCheckGitRepos keys_uniqueCWDsOf)

lemma secondPass_dedupKeys:
  "secondPass cwdMap (batchCheckGitRepos e (uniqueCWDsOf cwdMap))
     (batchGetGitInfo e (gitRepoDirsOf (batchCheckGitRepos e (uniqueCWDsOf cwdMap))))
     procs seen acc =
   acc @ dedupKeys seen (List.map_filter (candidate e cwdMap) procs)"
proof (induction procs arbitrary: seen acc)
  case Nil
  then show ?case by simp
next
  case (Cons p ps)
  show ?case
  proof (cases "map_of cwdMap (pid p)")
    case None
    then show ?thesis using Cons.IH by (simp add: candidate_def)
  next
    case (Some cwd)
    then have mem: "cwd \<in> snd ` set cwdMap" by (force dest: map_of_SomeD)
    show ?thesis
      using Some mem Cons.IH
      by (simp add: candidate_def lookupBool_cache gitInfoCache_lookup
          getGitInfoParallel_def keyOf_def Let_def)
  qed
qed

lemma buildServers_eq:
  "buildServers e out =
     dedupKeys {} (List.map_filter
       (candidate e (batchGetProcessCWDs e (map pid (firstPass (scanLines out)))))
       (firstPass (scanLines out)))"
  by (simp add: buildServers_def Let_def secondPass_dedupKeys)

lemma map_filter_append:
  "List.map_filter f (xs @ ys) = List.map_filter f xs @ List.map_filter f ys"
  by (simp add: List.map_filter_def)

lemma set_map_filter: "set (List.map_filter f xs) = {y. \<exists>x\<in>set xs. f x = Some y}"
  by (induction xs) (auto simp: split: option.splits)

subsection \<open>Deduplication by key\<close>


lemma dedupKeys_keys_fresh: "s \<in> set (dedupKeys seen xs) \<Longrightarrow> keyOf s \<notin> seen"
  by (induction xs arbitrary: seen) (auto split: if_splits)

lemma dedupKeys_distinct: "distinct (map keyOf (dedupKeys seen xs))"
  by (induction xs arbitrary: seen) (auto dest: dedupKeys_keys_fresh)

text \<open>
  An element survives when its key is new and no element before it has the key; every
  key that is not yet seen is the key of a survivor; two survivors never share a key.
\<close>

lemma dedupKeys_first:
  "keyOf c \<notin> seen \<Longrightarrow> \<forall>d\<in>set pre. keyOf d \<noteq> keyOf c \<Longrightarrow>
   c \<in> set (dedupKeys seen (pre @ c # post))"
  by (induction pre arbitrary: seen) auto

lemma dedupKeys_key_covered:
  "c \<in> set xs \<Longrightarrow> keyOf c \<notin> seen \<Longrightarrow> \<exists>s\<in>set (dedupKeys seen xs). keyOf s = keyOf c"
proof (induction xs arbitrary: seen)
  case Nil
  then show ?case by simp
next
  case (Cons x xs)
  show ?case
  proof (cases "keyOf x = keyOf c")
    case True
    then show ?thesis using Cons.prems by auto
  next
    case False
    then have "c \<in> set xs" using Cons.prems by auto
    then show ?thesis using Cons.IH [of "insert (keyOf x) seen"] Cons.IH [of seen] Cons.prems False
      by auto
  qed
qed

lemma dedupKeys_unique:
  "s \<in> set (dedupKeys seen xs) \<Longrightarrow> t \<in> set (dedupKeys seen xs) \<Longrightarrow> keyOf s = keyOf t \<Longrightarrow> s = t"
  using dedupKeys_distinct [of seen xs] by (meson distinct_map inj_onD)

subsection \<open>The comparison and the sorting functions\<close>

lemma serverLess_irrefl: "\<not> serverLess a a"
  by (simp add: serverLess_def)

lemma serverLess_asym: "serverLess a b \<Longrightarrow> \<not> serverLess b a"
  by (auto simp: serverLess_def split: if_splits)

lemma serverLess_trans: "serverLess a b \<Longrightarrow> serverLess b c \<Longrightarrow> serverLess a c"
  by (auto simp: serverLess_def split: if_splits)

lemma not_serverLess_trans:
  "\<not> serverLess b a \<Longrightarrow> \<not> serverLess c b \<Longrightarrow> \<not> serverLess c a"
  by (auto simp: serverLess_def split: if_splits)

lemma not_serverLess_iff:
  "(\<not> serverLess b a) =
     (Repo a < Repo b \<or> (Repo a = Repo b \<and> (Branch a < Branch b \<or> (Branch a = Branch b \<and> Port a \<le> Port b))))"
  by (auto simp: serverLess_def)

lemma mset_siftLeft: "mset (siftLeft lt x ys) = add_mset x (mset ys)"
  by (induction ys) auto

lemma set_siftLeft: "set (siftLeft lt x ys) = insert x (set ys)"
  by (induction ys) auto

text \<open>The visited part is held nearest neighbour first, so it is sorted downwards.\<close>

lemma sorted_siftLeft:
  "sorted_wrt (\<lambda>a b. \<not> serverLess a b) ys \<Longrightarrow>
   sorted_wrt (\<lambda>a b. \<not> serverLess a b) (siftLeft serverLess x ys)"
  by (induction ys) (auto simp: set_siftLeft dest: serverLess_asym not_serverLess_trans)

lemma mset_foldl_siftLeft:
  "mset (foldl (\<lambda>acc x. siftLeft lt x acc) acc xs) = mset acc + mset xs"
  by (induction xs arbitrary: acc) (auto simp: mset_siftLeft)

lemma sorted_foldl_siftLeft:
  "sorted_wrt (\<lambda>a b. \<not> serverLess a b) acc \<Longrightarrow>
   sorted_wrt (\<lambda>a b. \<not> serverLess a b) (foldl (\<lambda>acc x. siftLeft serverLess x acc) acc xs)"
  by (induction xs arbitrary: acc) (auto simp: sorted_siftLeft)

lemma mset_insertionSort: "mset (insertionSort lt xs) = mset xs"
  by (simp add: insertionSort_def mset_foldl_siftLeft)

lemma sorted_insertionSort:
  "sorted_wrt (\<lambda>a b. \<not> serverLess b a) (insertionSort serverLess xs)"
  using sorted_foldl_siftLeft [of "[]" xs]
  by (simp add: insertionSort_def sorted_wrt_rev)

lemma sortSliceSpec_insertionSort: "sortSliceSpec insertionSort"
  by (simp add: sortSliceSpec_def mset_insertionSort sorted_insertionSort)

lemma mset_shellPass: "6 \<le> i \<Longrightarrow> mset (shellPass lt i xs) = mset xs"
proof (induction lt i xs rule: shellPass.induct)
  case (1 lt i xs)
  show ?case
  proof (cases "i < length xs")
    case True
    let ?ys = "if lt (xs ! i) (xs ! (i - 6)) then xs[i := xs ! (i - 6), i - 6 := xs ! i] else xs"
    have "mset ?ys = mset xs" using True by (simp add: mset_swap)
    moreover have "mset (shellPass lt (Suc i) ?ys) = mset ?ys" using 1 True by simp
    ultimately show ?thesis using True by (simp add: shellPass.simps [of lt i xs])
  next
    case False
    then show ?thesis by (simp add: shellPass.simps [of lt i xs])
  qed
qed

lemma sortSliceSpec_shellInsertionSort: "sortSliceSpec shellInsertionSort"
proof -
  have "\<And>xs. \<not> 1 < length xs \<Longrightarrow> sorted_wrt (\<lambda>a b. \<not> serverLess b a) xs"
  proof -
    fix xs :: "Server list" assume "\<not> 1 < length xs"
    then have "xs = [] \<or> (\<exists>x. xs = [x])" by (cases xs) auto
    then show "sorted_wrt (\<lambda>a b. \<not> serverLess b a) xs" by auto
  qed
  then show ?thesis
    by (simp add: sortSliceSpec_def shellInsertionSort_def mset_insertionSort
        sorted_insertionSort mset_shellPass)
qed

lemma FindServers_sorted_perm:
  assumes "lsofListen e = Some out" and "sortSliceSpec (sortSlice e)"
  shows "\<exists>servers. FindServers e = Inr servers \<and> mset servers = mset (buildServers e out) \<and>
           sorted_wrt (\<lambda>a b. \<not> serverLess b a) servers"
  using assms by (simp add: FindServers_def sortSliceSpec_def)

lemma FindServers_set:
  assumes "lsofListen e = Some out" and "sortSliceSpec (sortSlice e)"
  shows "\<exists>servers. FindServers e = Inr servers \<and> set servers = set (buildServers e out)"
  using FindServers_sorted_perm [OF assms] by (metis mset_eq_setD)

subsection \<open>Decimal numbers and the key\<close>

lemma digitChar_table: "map digitChar [0, 1, 2, 3, 4, 5, 6, 7, 8, 9] = ''0123456789''"
  by code_simp

lemma digitChar_cases:
  "0 \<le> d \<Longrightarrow> d < 10 \<Longrightarrow> isDigit (digitChar d) \<and> digitVal (digitChar d) = d"
proof -
  assume "0 \<le> d" "d < 10"
  then have "d = 0 \<or> d = 1 \<or> d = 2 \<or> d = 3 \<or> d = 4 \<or> d = 5 \<or> d = 6 \<or> d = 7 \<or> d = 8 \<or> d = 9"
    by arith
  then show ?thesis
    using digitChar_table by (auto simp: isDigit_def digitVal_def)
qed

lemma digitsVal_snoc: "digitsVal (xs @ [c]) = 10 * digitsVal xs + digitVal c"
  by (simp add: digitsVal_def)

lemma posDigits_props:
  "0 \<le> n \<Longrightarrow> posDigits n \<noteq> [] \<and> list_all isDigit (posDigits n) \<and> digitsVal (posDigits n) = n"
proof (induction n rule: posDigits.induct)
  case (1 n)
  show ?case
  proof (cases "n < 10")
    case True
    then show ?thesis using 1(2) digitChar_cases [of n]
      by (simp add: posDigits.simps [of n] digitsVal_def)
  next
    case False
    then have ih: "posDigits (n div 10) \<noteq> [] \<and> list_all isDigit (posDigits (n div 10)) \<and>
        digitsVal (posDigits (n div 10)) = n div 10"
      using 1 by simp
    have d: "isDigit (digitChar (n mod 10)) \<and> digitVal (digitChar (n mod 10)) = n mod 10"
      by (rule digitChar_cases) simp_all
    show ?thesis using False ih d
      by (simp add: posDigits.simps [of n] digitsVal_snoc)
  qed
qed

lemma isDigit_not_bar: "isDigit c \<Longrightarrow> c \<noteq> CHR ''|'' \<and> c \<noteq> CHR ''-''"
  by (auto simp: isDigit_def)

lemma Itoa_no_bar: "CHR ''|'' \<notin> set (Itoa n)"
proof -
  have "\<And>m. 0 \<le> m \<Longrightarrow> CHR ''|'' \<notin> set (posDigits m)"
    using posDigits_props isDigit_not_bar by (metis list_all_iff)
  then show ?thesis by (simp add: Itoa_def)
qed

lemma Itoa_inj: "Itoa a = Itoa b \<Longrightarrow> a = b"
proof -
  assume eq: "Itoa a = Itoa b"
  have hd_digit: "\<And>m. 0 \<le> m \<Longrightarrow> hd (posDigits m) \<noteq> CHR ''-''"
    using posDigits_props isDigit_not_bar by (metis list_all_iff list.set_sel(1))
  have val: "\<And>m. 0 \<le> m \<Longrightarrow> digitsVal (posDigits m) = m" using posDigits_props by blast
  show "a = b"
  proof (cases "a < 0")
    case an: True
    show ?thesis
    proof (cases "b < 0")
      case True
      then have "posDigits (- a) = posDigits (- b)" using eq an by (simp add: Itoa_def)
      then have "digitsVal (posDigits (- a)) = digitsVal (posDigits (- b))" by simp
      then show ?thesis using val [of "- a"] val [of "- b"] an True by simp
    next
      case False
      then have "CHR ''-'' # posDigits (- a) = posDigits b" using eq an by (simp add: Itoa_def)
      then have "hd (posDigits b) = CHR ''-''" by (metis list.sel(1))
      then show ?thesis using hd_digit [of b] False by simp
    qed
  next
    case ap: False
    show ?thesis
    proof (cases "b < 0")
      case True
      then have "posDigits a = CHR ''-'' # posDigits (- b)" using eq ap by (simp add: Itoa_def)
      then have "hd (posDigits a) = CHR ''-''" by (metis list.sel(1))
      then show ?thesis using hd_digit [of a] ap by simp
    next
      case False
      then have "posDigits a = posDigits b" using eq ap by (simp add: Itoa_def)
      then have "digitsVal (posDigits a) = digitsVal (posDigits b)" by simp
      then show ?thesis using val [of a] val [of b] ap False by simp
    qed
  qed
qed

lemma split_at_bar:
  "c \<notin> set x \<Longrightarrow> c \<notin> set x' \<Longrightarrow> x @ c # y = x' @ c # y' \<Longrightarrow> x = x' \<and> y = y'"
proof (induction x arbitrary: x')
  case Nil
  then show ?case by (cases x') auto
next
  case (Cons a x)
  then show ?case by (cases x') auto
qed

lemma bars_zero: "(bars s = 0) = (CHR ''|'' \<notin> set s)"
  by (auto simp: bars_def filter_empty_conv)

lemma bars_append: "bars (x @ y) = bars x + bars y"
  by (simp add: bars_def)

lemma bars_Cons: "bars (c # y) = (if c = CHR ''|'' then Suc (bars y) else bars y)"
  by (simp add: bars_def)

text \<open>
  When three of the fields hold no separator, the key determines all four fields: the
  other key has as many separators, so its fields hold none either.
\<close>

lemma serverKey_fields:
  assumes "serverKey R B C N = serverKey r b c n"
    and "CHR ''|'' \<notin> set r" and "CHR ''|'' \<notin> set b" and "CHR ''|'' \<notin> set c"
  shows "R = r \<and> B = b \<and> C = c \<and> N = n"
proof -
  have "bars (serverKey R B C N) = bars (serverKey r b c n)" using assms(1) by simp
  moreover have "bars (Itoa N) = 0" "bars (Itoa n) = 0" "bars r = 0" "bars b = 0" "bars c = 0"
    using assms(2-4) by (simp_all add: bars_zero Itoa_no_bar)
  ultimately have "bars R = 0 \<and> bars B = 0 \<and> bars C = 0"
    by (simp add: serverKey_def bars_append bars_Cons)
  then have nb: "CHR ''|'' \<notin> set R" "CHR ''|'' \<notin> set B" "CHR ''|'' \<notin> set C"
    by (simp_all add: bars_zero)
  have e1: "R @ CHR ''|'' # (B @ ''|'' @ C @ ''|'' @ Itoa N) = r @ CHR ''|'' # (b @ ''|'' @ c @ ''|'' @ Itoa n)"
    using assms(1) by (simp add: serverKey_def)
  have s1: "R = r \<and> B @ ''|'' @ C @ ''|'' @ Itoa N = b @ ''|'' @ c @ ''|'' @ Itoa n"
    using split_at_bar [OF nb(1) assms(2) e1] .
  then have e2: "B @ CHR ''|'' # (C @ ''|'' @ Itoa N) = b @ CHR ''|'' # (c @ ''|'' @ Itoa n)" by simp
  have s2: "B = b \<and> C @ ''|'' @ Itoa N = c @ ''|'' @ Itoa n"
    using split_at_bar [OF nb(2) assms(3) e2] .
  then have e3: "C @ CHR ''|'' # Itoa N = c @ CHR ''|'' # Itoa n" by simp
  have s3: "C = c \<and> Itoa N = Itoa n"
    using split_at_bar [OF nb(3) assms(4) e3] .
  then show ?thesis using s1 s2 Itoa_inj by blast
qed

lemma Atoi_range: "Atoi s = Some n \<Longrightarrow> minInt \<le> n \<and> n \<le> maxInt"
  by (auto simp: Atoi_def AtoiUnsigned_def Let_def split: list.splits if_splits)

lemma extractPort_le: "extractPort line \<le> maxInt"
  by (auto simp: extractPort_def Let_def maxInt_def split: option.splits dest!: Atoi_range)

subsection \<open>Paths are never empty\<close>

lemma stringsJoin_nonempty:
  "xs \<noteq> [] \<Longrightarrow> \<forall>x\<in>set xs. x \<noteq> [] \<Longrightarrow> stringsJoin xs sep \<noteq> []"
  by (induction xs sep rule: stringsJoin.induct) auto

lemma cleanElems_elems_nonempty:
  "\<forall>x\<in>set out. x \<noteq> [] \<Longrightarrow> \<forall>x\<in>set (cleanElems rooted out es). x \<noteq> []"
proof (induction es arbitrary: out)
  case Nil
  then show ?case by simp
next
  case (Cons e es)
  have bl: "\<forall>x\<in>set (butlast out). x \<noteq> []" using Cons.prems by (auto dest: in_set_butlastD)
  have a1: "\<forall>x\<in>set (out @ [''..'']). x \<noteq> []" using Cons.prems by auto
  have a2: "e \<noteq> [] \<Longrightarrow> \<forall>x\<in>set (out @ [e]). x \<noteq> []" using Cons.prems by auto
  show ?case
    using Cons.IH [OF Cons.prems] Cons.IH [OF bl] Cons.IH [OF a1] Cons.IH [OF a2]
    by (simp del: set_append)
qed

lemma Clean_nonempty: "Clean p \<noteq> []"
  using cleanElems_elems_nonempty [of "[]" False "Split p (CHR ''/'')"]
  by (auto simp: Clean_def Let_def stringsJoin_nonempty)

lemma Join_nonempty: "a \<noteq> [] \<or> b \<noteq> [] \<Longrightarrow> Join a b \<noteq> []"
  by (auto simp: Join_def Clean_nonempty)

lemma Abs_nonempty: "getwd e \<noteq> Some [] \<Longrightarrow> Abs e p = Some c \<Longrightarrow> c \<noteq> []"
  by (auto simp: Abs_def Clean_nonempty Join_nonempty split: if_splits option.splits)

lemma firstNLine_nonempty: "getwd e \<noteq> Some [] \<Longrightarrow> firstNLine e ls = Inr c \<Longrightarrow> c \<noteq> []"
  by (induction ls) (auto split: if_splits option.splits dest: Abs_nonempty)

lemma procCwd_nonempty: "getwd e \<noteq> Some [] \<Longrightarrow> procCwd e p = Inr c \<Longrightarrow> c \<noteq> []"
  by (auto simp: procCwd_def Let_def split: if_splits option.splits dest: Abs_nonempty)

lemma getProcessCWD_nonempty: "getwd e \<noteq> Some [] \<Longrightarrow> getProcessCWD e p = Inr c \<Longrightarrow> c \<noteq> []"
  by (auto simp: getProcessCWD_def split: if_splits option.splits
      dest: firstNLine_nonempty procCwd_nonempty)

lemma map_of_fallbackLoop:
  "map_of (fallbackLoop e ps m) k =
     (if k \<in> set ps then
        (case getProcessCWD e k of
           Inl err \<Rightarrow> map_of m k
         | Inr cwd \<Rightarrow> if cwd \<noteq> [] then Some cwd else map_of m k)
      else map_of m k)"
  by (induction ps arbitrary: m) (auto simp: update_conv' split: sum.splits)

subsection \<open>The port pattern\<close>

lemma reSpace_not_digit: "reSpace c \<Longrightarrow> \<not> isDigit c"
  by (auto simp: reSpace_def isDigit_def)

lemma paren_not_reSpace: "\<not> reSpace (CHR ''('')"
  by (simp add: reSpace_def)

lemma takeWhile_run:
  "list_all P xs \<Longrightarrow> ys \<noteq> [] \<Longrightarrow> \<not> P (hd ys) \<Longrightarrow> takeWhile P (xs @ ys) = xs"
  by (cases ys) (auto simp: list_all_iff takeWhile_append2)

lemma dropWhile_run:
  "list_all P xs \<Longrightarrow> ys \<noteq> [] \<Longrightarrow> \<not> P (hd ys) \<Longrightarrow> dropWhile P (xs @ ys) = ys"
  by (cases ys) (auto simp: list_all_iff dropWhile_append2)

lemma HasPrefix_append: "HasPrefix (p @ r) p"
  by (simp add: HasPrefix_def)

lemma HasPrefix_decompose: "HasPrefix s p \<Longrightarrow> s = p @ drop (length p) s"
  by (metis HasPrefix_def append_take_drop_id)

text \<open>
  \<open>portRegexAt\<close> finds exactly the matches of the pattern: the digits and the white space
  of a match are the whole runs, because white space follows the digits and a parenthesis
  follows the white space.
\<close>

lemma portRegexAt_iff: "(portRegexAt s = Some ds) = listenPatternAt s ds"
proof
  assume a: "portRegexAt s = Some ds"
  then obtain r where s: "s = CHR '':'' # r"
    by (auto simp: portRegexAt_def split: list.splits if_splits)
  let ?r1 = "dropWhile isDigit r"
  let ?ws = "takeWhile reSpace ?r1"
  let ?r2 = "dropWhile reSpace ?r1"
  from a s have ds: "ds = takeWhile isDigit r" and ne: "ds \<noteq> []" and wne: "?ws \<noteq> []"
    and pre: "HasPrefix ?r2 ''(LISTEN)''"
    by (auto simp: portRegexAt_def Let_def split: if_splits)
  have "r = ds @ ?ws @ ?r2" by (simp add: ds)
  moreover have "?r2 = ''(LISTEN)'' @ drop (length ''(LISTEN)'') ?r2"
    using pre by (rule HasPrefix_decompose)
  ultimately have "s = CHR '':'' # ds @ ?ws @ ''(LISTEN)'' @ drop (length ''(LISTEN)'') ?r2"
    using s by metis
  moreover have "list_all isDigit ds" by (simp add: ds list_all_iff) (meson set_takeWhileD)
  moreover have "list_all reSpace ?ws" by (simp add: list_all_iff) (meson set_takeWhileD)
  ultimately show "listenPatternAt s ds"
    unfolding listenPatternAt_def using ne wne by blast
next
  assume "listenPatternAt s ds"
  then obtain ws post where s: "s = CHR '':'' # ds @ ws @ ''(LISTEN)'' @ post"
    and ne: "ds \<noteq> []" and dd: "list_all isDigit ds" and wne: "ws \<noteq> []"
    and ww: "list_all reSpace ws"
    unfolding listenPatternAt_def by blast
  let ?rest = "ws @ ''(LISTEN)'' @ post"
  have h1: "?rest \<noteq> []" using wne by simp
  have h2: "\<not> isDigit (hd ?rest)"
    using wne ww by (cases ws) (auto simp: reSpace_not_digit)
  have t1: "takeWhile isDigit (ds @ ?rest) = ds" by (rule takeWhile_run [OF dd h1 h2])
  have d1: "dropWhile isDigit (ds @ ?rest) = ?rest" by (rule dropWhile_run [OF dd h1 h2])
  let ?tail = "''(LISTEN)'' @ post"
  have h3: "?tail \<noteq> []" by simp
  have h4: "\<not> reSpace (hd ?tail)" by (simp add: paren_not_reSpace)
  have t2: "takeWhile reSpace (ws @ ?tail) = ws" by (rule takeWhile_run [OF ww h3 h4])
  have d2: "dropWhile reSpace (ws @ ?tail) = ?tail" by (rule dropWhile_run [OF ww h3 h4])
  show "portRegexAt s = Some ds"
    unfolding portRegexAt_def s
    by (simp only: list.case if_True Let_def t1 d1 t2 d2 ne wne HasPrefix_append simp_thms)
qed

lemma portRegexAt_None_iff: "(portRegexAt s = None) = (\<forall>d. \<not> listenPatternAt s d)"
  by (metis portRegexAt_iff option.exhaust option.distinct(1))

lemma FindStringSubmatch_first:
  "portRegexAt s = Some ds \<Longrightarrow> \<forall>n<length pre. portRegexAt (drop n (pre @ s)) = None \<Longrightarrow>
   FindStringSubmatch (pre @ s) = Some ds"
proof (induction pre)
  case Nil
  then show ?case by (cases s) (auto simp: portRegexAt_def)
next
  case (Cons x pre)
  have "portRegexAt (x # pre @ s) = None" using Cons.prems(2) by force
  moreover have "\<forall>n<length pre. portRegexAt (drop n (pre @ s)) = None"
  proof (intro allI impI)
    fix n assume "n < length pre"
    then have "Suc n < length (x # pre)" by simp
    then have "portRegexAt (drop (Suc n) ((x # pre) @ s)) = None" using Cons.prems(2) by blast
    then show "portRegexAt (drop n (pre @ s)) = None" by simp
  qed
  ultimately show ?case using Cons.IH Cons.prems(1) by simp
qed

lemma FindStringSubmatch_None:
  "\<forall>n. portRegexAt (drop n line) = None \<Longrightarrow> FindStringSubmatch line = None"
proof (induction line)
  case Nil
  then show ?case by simp
next
  case (Cons c r)
  have "portRegexAt (c # r) = None" using Cons.prems [rule_format, of 0] by simp
  moreover have "\<forall>n. portRegexAt (drop n r) = None"
    using Cons.prems by (metis drop_Suc_Cons)
  ultimately show ?case using Cons.IH by simp
qed

lemma SplitAux_nonempty: "SplitAux sep cur s \<noteq> []"
  by (induction s arbitrary: cur) auto

lemma last_SplitAux:
  "last (SplitAux sep cur s) =
     (if sep \<in> set s then rev (takeWhile (\<lambda>c. c \<noteq> sep) (rev s)) else rev cur @ s)"
  by (induction s arbitrary: cur) (auto simp: SplitAux_nonempty takeWhile_append)

lemma last_Split: "last (Split s sep) = rev (takeWhile (\<lambda>c. c \<noteq> sep) (rev s))"
proof (cases "sep \<in> set s")
  case True
  then show ?thesis by (simp add: Split_def last_SplitAux)
next
  case False
  then have "takeWhile (\<lambda>c. c \<noteq> sep) (rev s) = rev s"
    by (intro takeWhile_eq_all_conv [THEN iffD2]) auto
  then have "rev (takeWhile (\<lambda>c. c \<noteq> sep) (rev s)) = rev (rev s)" by (rule arg_cong)
  then have "rev (takeWhile (\<lambda>c. c \<noteq> sep) (rev s)) = s" by (simp only: rev_rev_ident)
  then show ?thesis using False by (simp only: Split_def last_SplitAux if_False rev.simps append_Nil)
qed

lemma Split_length_pos: "length (Split s sep) > 0"
  by (simp add: Split_def SplitAux_nonempty)

lemma Split_last_part:
  "Split s sep ! (length (Split s sep) - 1) = rev (takeWhile (\<lambda>c. c \<noteq> sep) (rev s))"
  using last_Split [of s sep] SplitAux_nonempty [of sep "[]" s]
  by (simp add: Split_def last_conv_nth)

lemma all_less_list_all: "(\<forall>n<k. P n) = list_all P [0..<k]"
  by (auto simp: list_all_iff)

lemma no_pattern_list_all:
  "(\<forall>n d. \<not> listenPatternAt (drop n l) d) =
     list_all (\<lambda>n. portRegexAt (drop n l) = None) [0..<length l]"
proof -
  have "\<And>n. length l \<le> n \<Longrightarrow> portRegexAt (drop n l) = None"
    by (simp add: portRegexAt_def)
  then have "(\<forall>n. portRegexAt (drop n l) = None) = (\<forall>n<length l. portRegexAt (drop n l) = None)"
    by (metis not_le)
  then show ?thesis by (simp add: portRegexAt_None_iff [symmetric] all_less_list_all)
qed

subsection \<open>The example runs, evaluated\<close>

lemma workEnv_listen: "lsofListen workEnv = Some workOut"
  by (simp add: workEnv_def)

lemma workEnv_sort: "sortSliceSpec (sortSlice workEnv)"
  by (simp add: workEnv_def sortSliceSpec_insertionSort)

lemma workEnv_procs:
  "firstPass (scanLines workOut) =
     [\<lparr>pid = 100, command = ''node'', port = 3001\<rparr>,
      \<lparr>pid = 101, command = ''node'', port = 3001\<rparr>,
      \<lparr>pid = 200, command = ''ruby'', port = 3000\<rparr>,
      \<lparr>pid = 300, command = ''puma'', port = 9292\<rparr>]"
  by code_simp

lemma workEnv_cwds:
  "batchGetProcessCWDs workEnv [100, 101, 200, 300] =
     [(100, ''/repo-a''), (101, ''/repo-a/sub''), (200, ''/repo-b''), (300, ''/repo-c'')]"
  by code_simp

lemma workEnv_cwdMap:
  "[(100, ''/repo-a''), (101, ''/repo-a/sub''), (200, ''/repo-b''), (300, ''/repo-c'')] =
     batchGetProcessCWDs workEnv (map pid (firstPass (scanLines workOut)))"
  by (simp add: workEnv_procs workEnv_cwds)

lemma workEnv_candidates:
  "map (candidate workEnv
          [(100, ''/repo-a''), (101, ''/repo-a/sub''), (200, ''/repo-b''), (300, ''/repo-c'')])
     [\<lparr>pid = 100, command = ''node'', port = 3001\<rparr>,
      \<lparr>pid = 101, command = ''node'', port = 3001\<rparr>,
      \<lparr>pid = 200, command = ''ruby'', port = 3000\<rparr>,
      \<lparr>pid = 300, command = ''puma'', port = 9292\<rparr>] =
     [Some \<lparr>Repo = ''repo-a'', Branch = ''main'', Process = ''node'', Port = 3001, PID = 0, CWD = ''/repo-a''\<rparr>,
      Some \<lparr>Repo = ''repo-a'', Branch = ''main'', Process = ''node'', Port = 3001, PID = 0, CWD = ''/repo-a/sub''\<rparr>,
      None,
      Some \<lparr>Repo = ''repo-c'', Branch = ''N/A'', Process = ''puma'', Port = 9292, PID = 0, CWD = ''/repo-c''\<rparr>]"
  by code_simp

lemma workEnv_key_a:
  "keyOf \<lparr>Repo = ''repo-a'', Branch = ''main'', Process = ''node'', Port = 3001, PID = 0, CWD = ''/repo-a''\<rparr> = ''repo-a|main|node|3001''"
  by code_simp

lemma workEnv_key_a_sub:
  "keyOf \<lparr>Repo = ''repo-a'', Branch = ''main'', Process = ''node'', Port = 3001, PID = 0, CWD = ''/repo-a/sub''\<rparr> = ''repo-a|main|node|3001''"
  by code_simp


lemma workEnv_repo_c:
  "IsRepo workEnv ''/repo-c'' \<and> ValidateDir workEnv ''/repo-c'' = Inr ''/repo-c'' \<and>
   gitAbbrevRefHEAD workEnv ''/repo-c'' = None \<and> GetRepoName workEnv ''/repo-c'' = ''repo-c''"
  by code_simp

lemma tieEnv_build:
  "buildServers tieEnv tieOut =
     [\<lparr>Repo = ''repo-b'', Branch = ''main'', Process = ''node'', Port = 3000, PID = 0,
        CWD = ''/repo-b''\<rparr>,
      \<lparr>Repo = ''repo-b'', Branch = ''main'', Process = ''nginx'', Port = 3000, PID = 0,
        CWD = ''/repo-b''\<rparr>,
      \<lparr>Repo = ''repo-b'', Branch = ''main'', Process = ''node'', Port = 4001, PID = 0,
        CWD = ''/repo-b''\<rparr>,
      \<lparr>Repo = ''repo-b'', Branch = ''main'', Process = ''node'', Port = 4002, PID = 0,
        CWD = ''/repo-b''\<rparr>,
      \<lparr>Repo = ''repo-b'', Branch = ''main'', Process = ''node'', Port = 4003, PID = 0,
        CWD = ''/repo-b''\<rparr>,
      \<lparr>Repo = ''repo-b'', Branch = ''main'', Process = ''node'', Port = 4004, PID = 0,
        CWD = ''/repo-b''\<rparr>,
      \<lparr>Repo = ''repo-a'', Branch = ''main'', Process = ''node'', Port = 3001, PID = 0,
        CWD = ''/repo-a''\<rparr>]"
  by code_simp

lemma tieEnv_sorted:
  "shellInsertionSort serverLess
     [\<lparr>Repo = ''repo-b'', Branch = ''main'', Process = ''node'', Port = 3000, PID = 0,
        CWD = ''/repo-b''\<rparr>,
      \<lparr>Repo = ''repo-b'', Branch = ''main'', Process = ''nginx'', Port = 3000, PID = 0,
        CWD = ''/repo-b''\<rparr>,
      \<lparr>Repo = ''repo-b'', Branch = ''main'', Process = ''node'', Port = 4001, PID = 0,
        CWD = ''/repo-b''\<rparr>,
      \<lparr>Repo = ''repo-b'', Branch = ''main'', Process = ''node'', Port = 4002, PID = 0,
        CWD = ''/repo-b''\<rparr>,
      \<lparr>Repo = ''repo-b'', Branch = ''main'', Process = ''node'', Port = 4003, PID = 0,
        CWD = ''/repo-b''\<rparr>,
      \<lparr>Repo = ''repo-b'', Branch = ''main'', Process = ''node'', Port = 4004, PID = 0,
        CWD = ''/repo-b''\<rparr>,
      \<lparr>Repo = ''repo-a'', Branch = ''main'', Process = ''node'', Port = 3001, PID = 0,
        CWD = ''/repo-a''\<rparr>] =
     [\<lparr>Repo = ''repo-a'', Branch = ''main'', Process = ''node'', Port = 3001, PID = 0,
        CWD = ''/repo-a''\<rparr>,
      \<lparr>Repo = ''repo-b'', Branch = ''main'', Process = ''nginx'', Port = 3000, PID = 0,
        CWD = ''/repo-b''\<rparr>,
      \<lparr>Repo = ''repo-b'', Branch = ''main'', Process = ''node'', Port = 3000, PID = 0,
        CWD = ''/repo-b''\<rparr>,
      \<lparr>Repo = ''repo-b'', Branch = ''main'', Process = ''node'', Port = 4001, PID = 0,
        CWD = ''/repo-b''\<rparr>,
      \<lparr>Repo = ''repo-b'', Branch = ''main'', Process = ''node'', Port = 4002, PID = 0,
        CWD = ''/repo-b''\<rparr>,
      \<lparr>Repo = ''repo-b'', Branch = ''main'', Process = ''node'', Port = 4003, PID = 0,
        CWD = ''/repo-b''\<rparr>,
      \<lparr>Repo = ''repo-b'', Branch = ''main'', Process = ''node'', Port = 4004, PID = 0,
        CWD = ''/repo-b''\<rparr>]"
  by code_simp

lemma tieEnv_tie:
  "\<not> serverLess
       \<lparr>Repo = ''repo-b'', Branch = ''main'', Process = ''node'', Port = 3000, PID = 0,
          CWD = ''/repo-b''\<rparr>
       \<lparr>Repo = ''repo-b'', Branch = ''main'', Process = ''nginx'', Port = 3000, PID = 0,
          CWD = ''/repo-b''\<rparr> \<and>
   \<not> serverLess
       \<lparr>Repo = ''repo-b'', Branch = ''main'', Process = ''nginx'', Port = 3000, PID = 0,
          CWD = ''/repo-b''\<rparr>
       \<lparr>Repo = ''repo-b'', Branch = ''main'', Process = ''node'', Port = 3000, PID = 0,
          CWD = ''/repo-b''\<rparr>"
  by (simp add: serverLess_def)

lemma collide_procs:
  "firstPass (scanLines collideOut) =
     [\<lparr>pid = 100, command = ''node'', port = 3000\<rparr>, \<lparr>pid = 200, command = ''node'', port = 3000\<rparr>]"
  by code_simp

lemma collide_cand1:
  "candidate collideEnv (batchGetProcessCWDs collideEnv (map pid (firstPass (scanLines collideOut))))
     \<lparr>pid = 100, command = ''node'', port = 3000\<rparr> =
     Some \<lparr>Repo = ''a|b'', Branch = ''c'', Process = ''node'', Port = 3000, PID = 0, CWD = ''/w/a|b''\<rparr>"
  by code_simp

lemma collide_cand2:
  "candidate collideEnv (batchGetProcessCWDs collideEnv (map pid (firstPass (scanLines collideOut))))
     \<lparr>pid = 200, command = ''node'', port = 3000\<rparr> =
     Some \<lparr>Repo = ''a'', Branch = ''b|c'', Process = ''node'', Port = 3000, PID = 0, CWD = ''/w/a''\<rparr>"
  by code_simp

lemma collide_find:
  "FindServers collideEnv =
     Inr [\<lparr>Repo = ''a|b'', Branch = ''c'', Process = ''node'', Port = 3000, PID = 0, CWD = ''/w/a|b''\<rparr>]"
  by code_simp

lemma emptyUrl_eval:
  "ValidateDir emptyUrlEnv ''/repo-a'' = Inr ''/repo-a'' \<and>
   gitRemoteOriginURL emptyUrlEnv ''/repo-a'' = Some [CHR 0x0A] \<and>
   TrimSpace [CHR 0x0A] = [] \<and>
   Base ''/repo-a'' = ''repo-a'' \<and>
   GetRepoName emptyUrlEnv ''/repo-a'' = []"
  by code_simp

lemma big_port_line:
  "firstPass [''node 100 dev 22u IPv4 0x1 0t0 TCP *:70000 (LISTEN)''] =
     [\<lparr>pid = 100, command = ''node'', port = 70000\<rparr>]"
  by code_simp

lemma macEnv_facts:
  "IsMacOS macEnv \<and> lsofCwd macEnv (stringsJoin (map Itoa [100, 200]) '','') = None \<and>
   getProcessCWD macEnv 100 = Inr ''/repo-a'' \<and> getProcessCWD macEnv 200 = Inl CwdCommandFailed"
  by code_simp

lemma listen_line_facts:
  "portRegexAt '':3001 (LISTEN)'' = Some ''3001'' \<and>
   list_all (\<lambda>n. portRegexAt (drop n (''node 100 dev 22u IPv4 0x1 0t0 TCP *'' @ '':3001 (LISTEN)'')) = None)
     [0..<length ''node 100 dev 22u IPv4 0x1 0t0 TCP *''] \<and>
   Atoi ''3001'' = Some 3001"
  by code_simp

lemma plain_line_facts:
  "list_all (\<lambda>n. portRegexAt (drop n ''node 100 dev 22u IPv4 0x1 0t0 TCP [::1]:3000'') = None)
     [0..<length ''node 100 dev 22u IPv4 0x1 0t0 TCP [::1]:3000''] \<and>
   length (Fields ''node 100 dev 22u IPv4 0x1 0t0 TCP [::1]:3000'') = 9 \<and>
   Fields ''node 100 dev 22u IPv4 0x1 0t0 TCP [::1]:3000'' ! 8 = ''[::1]:3000'' \<and>
   Atoi ''3000'' = Some 3000"
  by code_simp


lemma workEnv_find:
  "FindServers workEnv = Inr
     [\<lparr>Repo = ''repo-a'', Branch = ''main'', Process = ''node'', Port = 3001, PID = 0,
        CWD = ''/repo-a''\<rparr>,
      \<lparr>Repo = ''repo-c'', Branch = ''N/A'', Process = ''puma'', Port = 9292, PID = 0,
        CWD = ''/repo-c''\<rparr>]"
  by code_simp

lemma workEnv_repo_a:
  "ValidateDir workEnv ''/repo-a'' = Inr ''/repo-a'' \<and>
   gitRemoteOriginURL workEnv ''/repo-a'' = Some (''git@host:org/repo-a.git'' @ [CHR 0x0A]) \<and>
   TrimSpace (''git@host:org/repo-a.git'' @ [CHR 0x0A]) = ''git@host:org/repo-a.git'' \<and>
   TrimSuffix (rev (takeWhile (\<lambda>c. c \<noteq> CHR ''/'') (rev ''git@host:org/repo-a.git''))) ''.git'' =
     ''repo-a'' \<and>
   gitRemoteOriginURL workEnv ''/repo-c'' = None \<and> Base ''/repo-c'' = ''repo-c''"
  by code_simp

lemma collide_keys:
  "keyOf \<lparr>Repo = ''a|b'', Branch = ''c'', Process = ''node'', Port = 3000, PID = 0,
      CWD = ''/w/a|b''\<rparr> = ''a|b|c|node|3000'' \<and>
   keyOf \<lparr>Repo = ''a'', Branch = ''b|c'', Process = ''node'', Port = 3000, PID = 0,
      CWD = ''/w/a''\<rparr> = ''a|b|c|node|3000''"
  by code_simp

lemma Split_last_part_Suc:
  "Split s sep ! (length (Split s sep) - Suc 0) = rev (takeWhile (\<lambda>c. c \<noteq> sep) (rev s))"
  using Split_last_part [of s sep] by simp

lemma distinct_map_comp: "distinct (map (\<lambda>x. g (f x)) xs) \<Longrightarrow> distinct (map f xs)"
  by (induction xs) auto

lemma count_one_of_distinct:
  "distinct (map f xs) \<Longrightarrow> x \<in> set xs \<Longrightarrow> length (filter (\<lambda>y. f y = f x) xs) = 1"
proof (induction xs)
  case Nil
  then show ?case by simp
next
  case (Cons a xs)
  show ?case
  proof (cases "f a = f x")
    case True
    then have "\<forall>y\<in>set xs. f y \<noteq> f x" using Cons.prems(1) by (force simp: image_iff)
    then have "filter (\<lambda>y. f y = f x) xs = []" by (simp add: filter_empty_conv)
    then show ?thesis using True by simp
  next
    case False
    then have "x \<in> set xs" using Cons.prems(2) by auto
    then show ?thesis using Cons.IH Cons.prems(1) False by simp
  qed
qed

lemma FindServers_keys_distinct:
  assumes "lsofListen e = Some out" and "sortSliceSpec (sortSlice e)"
    and "FindServers e = Inr servers"
  shows "distinct (map keyOf servers)"
proof -
  have "mset servers = mset (buildServers e out)"
    using FindServers_sorted_perm [OF assms(1,2)] assms(3) by auto
  then have "mset (map keyOf servers) = mset (map keyOf (buildServers e out))" by simp
  moreover have "distinct (map keyOf (buildServers e out))"
    by (simp add: buildServers_eq dedupKeys_distinct)
  ultimately show ?thesis by (metis mset_eq_imp_distinct_iff)
qed

lemma FindServers_tuples_distinct:
  assumes "lsofListen e = Some out" and "sortSliceSpec (sortSlice e)"
    and "FindServers e = Inr servers"
  shows "distinct (map (\<lambda>s. (Repo s, Branch s, Process s, Port s)) servers)"
proof -
  have "distinct (map (\<lambda>s. (\<lambda>(r, b, c, n). serverKey r b c n) (Repo s, Branch s, Process s, Port s))
      servers)"
    using FindServers_keys_distinct [OF assms] by (simp add: keyOf_def [abs_def])
  then show ?thesis by (rule distinct_map_comp)
qed

section \<open>The claims\<close>

text \<open>
  C1. For every group of classified listener records that share the same (repository,
  branch, process, port) tuple after their working directory is resolved, exactly one
  entry with that tuple is emitted, and no two entries of the output share all four
  fields.

  The second pass identifies a tuple by the string \<^verbatim>\<open>repo|branch|process|port\<close>. Two
  different tuples have the same string when a name contains the separator, and the
  second pass then drops the later record as a duplicate: in \<open>collideEnv\<close> the records of
  PID 100 (repository \<^verbatim>\<open>a|b\<close>, branch \<^verbatim>\<open>c\<close>) and of PID 200 (repository \<^verbatim>\<open>a\<close>,
  branch \<^verbatim>\<open>b|c\<close>) both pass every lookup, and the output holds no entry for the second
  tuple. The theorem evaluates the program there.
\<close>

theorem key_collision_drops_second_tuple:
  "firstPass (scanLines collideOut) =
     [\<lparr>pid = 100, command = ''node'', port = 3000\<rparr>,
      \<lparr>pid = 200, command = ''node'', port = 3000\<rparr>] \<and>
   candidate collideEnv
       (batchGetProcessCWDs collideEnv (map pid (firstPass (scanLines collideOut))))
       \<lparr>pid = 100, command = ''node'', port = 3000\<rparr> =
     Some \<lparr>Repo = ''a|b'', Branch = ''c'', Process = ''node'', Port = 3000, PID = 0,
       CWD = ''/w/a|b''\<rparr> \<and>
   candidate collideEnv
       (batchGetProcessCWDs collideEnv (map pid (firstPass (scanLines collideOut))))
       \<lparr>pid = 200, command = ''node'', port = 3000\<rparr> =
     Some \<lparr>Repo = ''a'', Branch = ''b|c'', Process = ''node'', Port = 3000, PID = 0,
       CWD = ''/w/a''\<rparr> \<and>
   keyOf \<lparr>Repo = ''a|b'', Branch = ''c'', Process = ''node'', Port = 3000, PID = 0,
       CWD = ''/w/a|b''\<rparr> =
     keyOf \<lparr>Repo = ''a'', Branch = ''b|c'', Process = ''node'', Port = 3000, PID = 0,
       CWD = ''/w/a''\<rparr> \<and>
   FindServers collideEnv =
     Inr [\<lparr>Repo = ''a|b'', Branch = ''c'', Process = ''node'', Port = 3000, PID = 0,
       CWD = ''/w/a|b''\<rparr>]"
  using collide_procs collide_cand1 collide_cand2 collide_find collide_keys by simp

text \<open>
  C2. For any permutation of valid input records the final list is sorted ascending by
  repository name, then by branch name, then numerically by port, and the sort is stable.

  As amended: whenever the enumeration succeeds, the result holds exactly the entries the
  second pass produced and is non-decreasing by (repository, branch, port); the order of
  entries that tie on all three fields is whatever \<^verbatim>\<open>sort.Slice\<close> leaves, which its
  contract does not fix.
\<close>

theorem FindServers_sorted:
  assumes "lsofListen e = Some out" and "sortSliceSpec (sortSlice e)"
  shows "\<exists>servers. FindServers e = Inr servers \<and> mset servers = mset (buildServers e out) \<and>
           sorted_wrt (\<lambda>a b. Repo a < Repo b \<or> (Repo a = Repo b \<and>
              (Branch a < Branch b \<or> (Branch a = Branch b \<and> Port a \<le> Port b)))) servers"
  using FindServers_sorted_perm [OF assms] unfolding not_serverLess_iff by simp

theorem FindServers_sorted_witness:
  "\<exists>servers. FindServers workEnv = Inr servers \<and> mset servers = mset (buildServers workEnv workOut) \<and>
           sorted_wrt (\<lambda>a b. Repo a < Repo b \<or> (Repo a = Repo b \<and>
              (Branch a < Branch b \<or> (Branch a = Branch b \<and> Port a \<le> Port b)))) servers"
  by (rule FindServers_sorted [OF workEnv_listen workEnv_sort])

text \<open>
  The stability part of C2 fails under the sorting function that \<^verbatim>\<open>sort.Slice\<close> of
  Go 1.16 to 1.18 runs on short slices: in \<open>tieEnv\<close> the second pass produces the
  \<^verbatim>\<open>node\<close> entry of port 3000 before the \<^verbatim>\<open>nginx\<close> entry of the same checkout and
  port, neither is less than the other, and the result lists \<^verbatim>\<open>nginx\<close> first. (With
  \<open>insertionSort\<close> in its place the two keep their order: the order of ties depends on
  the library version.)
\<close>

theorem sort_stability_counterexample:
  "sortSliceSpec (sortSlice tieEnv) \<and>
   lsofListen tieEnv = Some tieOut \<and>
   buildServers tieEnv tieOut =
     [\<lparr>Repo = ''repo-b'', Branch = ''main'', Process = ''node'', Port = 3000, PID = 0,
        CWD = ''/repo-b''\<rparr>,
      \<lparr>Repo = ''repo-b'', Branch = ''main'', Process = ''nginx'', Port = 3000, PID = 0,
        CWD = ''/repo-b''\<rparr>,
      \<lparr>Repo = ''repo-b'', Branch = ''main'', Process = ''node'', Port = 4001, PID = 0,
        CWD = ''/repo-b''\<rparr>,
      \<lparr>Repo = ''repo-b'', Branch = ''main'', Process = ''node'', Port = 4002, PID = 0,
        CWD = ''/repo-b''\<rparr>,
      \<lparr>Repo = ''repo-b'', Branch = ''main'', Process = ''node'', Port = 4003, PID = 0,
        CWD = ''/repo-b''\<rparr>,
      \<lparr>Repo = ''repo-b'', Branch = ''main'', Process = ''node'', Port = 4004, PID = 0,
        CWD = ''/repo-b''\<rparr>,
      \<lparr>Repo = ''repo-a'', Branch = ''main'', Process = ''node'', Port = 3001, PID = 0,
        CWD = ''/repo-a''\<rparr>] \<and>
   \<not> serverLess
       \<lparr>Repo = ''repo-b'', Branch = ''main'', Process = ''node'', Port = 3000, PID = 0,
          CWD = ''/repo-b''\<rparr>
       \<lparr>Repo = ''repo-b'', Branch = ''main'', Process = ''nginx'', Port = 3000, PID = 0,
          CWD = ''/repo-b''\<rparr> \<and>
   \<not> serverLess
       \<lparr>Repo = ''repo-b'', Branch = ''main'', Process = ''nginx'', Port = 3000, PID = 0,
          CWD = ''/repo-b''\<rparr>
       \<lparr>Repo = ''repo-b'', Branch = ''main'', Process = ''node'', Port = 3000, PID = 0,
          CWD = ''/repo-b''\<rparr> \<and>
   FindServers tieEnv = Inr
     [\<lparr>Repo = ''repo-a'', Branch = ''main'', Process = ''node'', Port = 3001, PID = 0,
        CWD = ''/repo-a''\<rparr>,
      \<lparr>Repo = ''repo-b'', Branch = ''main'', Process = ''nginx'', Port = 3000, PID = 0,
        CWD = ''/repo-b''\<rparr>,
      \<lparr>Repo = ''repo-b'', Branch = ''main'', Process = ''node'', Port = 3000, PID = 0,
        CWD = ''/repo-b''\<rparr>,
      \<lparr>Repo = ''repo-b'', Branch = ''main'', Process = ''node'', Port = 4001, PID = 0,
        CWD = ''/repo-b''\<rparr>,
      \<lparr>Repo = ''repo-b'', Branch = ''main'', Process = ''node'', Port = 4002, PID = 0,
        CWD = ''/repo-b''\<rparr>,
      \<lparr>Repo = ''repo-b'', Branch = ''main'', Process = ''node'', Port = 4003, PID = 0,
        CWD = ''/repo-b''\<rparr>,
      \<lparr>Repo = ''repo-b'', Branch = ''main'', Process = ''node'', Port = 4004, PID = 0,
        CWD = ''/repo-b''\<rparr>]"
proof -
  have spec: "sortSliceSpec (sortSlice tieEnv)"
    by (simp add: tieEnv_def sortSliceSpec_shellInsertionSort)
  have listen: "lsofListen tieEnv = Some tieOut" by (simp add: tieEnv_def)
  have srt: "sortSlice tieEnv = shellInsertionSort" by (simp add: tieEnv_def)
  have "FindServers tieEnv = Inr (shellInsertionSort serverLess (buildServers tieEnv tieOut))"
    using listen srt by (simp add: FindServers_def)
  then show ?thesis
    using spec listen tieEnv_tie
    by (simp only: tieEnv_build tieEnv_sorted simp_thms)
qed

text \<open>
  C3. The port classifier accepts a port exactly when it is at least 3000 or equal to
  2000; so it rejects every port below 1024 and every port from 1024 up to 2999 other than
  2000.
\<close>

theorem isDevPort_iff:
  "isDevPort p = (p \<ge> 3000 \<or> p = 2000) \<and>
   (p < 1024 \<longrightarrow> \<not> isDevPort p) \<and>
   (1024 \<le> p \<and> p < 3000 \<and> p \<noteq> 2000 \<longrightarrow> \<not> isDevPort p)"
  by (simp add: isDevPort_def)

theorem isDevPort_iff_witness:
  "isDevPort 3000 \<and> isDevPort 2000 \<and> \<not> isDevPort 80 \<and> \<not> isDevPort 2999 \<and> \<not> isDevPort 1024"
  using isDevPort_iff [of 3000] isDevPort_iff [of 2000] isDevPort_iff [of 80]
    isDevPort_iff [of 2999] isDevPort_iff [of 1024]
  by simp





text \<open>
  C6. On macOS, when the batched working-directory query for a non-empty PID list fails,
  the resolver returns what the per-PID fallback returns, and the resulting map holds the
  directory of every PID whose individual lookup (\<open>getProcessCWD\<close>) succeeds and no entry
  for a PID whose lookup fails or that was not asked for. The hypothesis on \<open>getwd\<close> says
  that \<^verbatim>\<open>os.Getwd\<close> never returns the empty path, so that no resolved directory is empty.
\<close>

theorem fallback_resolves_each_pid:
  assumes "IsMacOS e" and "pids \<noteq> []"
    and "lsofCwd e (stringsJoin (map Itoa pids) '','') = None"
    and "getwd e \<noteq> Some []"
  shows "batchGetProcessCWDs e pids = fallbackGetCWDs e pids \<and>
         map_of (batchGetProcessCWDs e pids) p =
           (if p \<in> set pids then
              (case getProcessCWD e p of Inl err \<Rightarrow> None | Inr cwd \<Rightarrow> Some cwd)
            else None)"
proof -
  have eq: "batchGetProcessCWDs e pids = fallbackGetCWDs e pids"
    using assms(1,2,3) by (simp add: batchGetProcessCWDs_def)
  have "map_of (fallbackGetCWDs e pids) p =
           (if p \<in> set pids then
              (case getProcessCWD e p of Inl err \<Rightarrow> None | Inr cwd \<Rightarrow> Some cwd)
            else None)"
    using getProcessCWD_nonempty [OF assms(4), of p]
    by (auto simp: fallbackGetCWDs_def map_of_fallbackLoop split: sum.splits)
  then show ?thesis using eq by simp
qed

theorem fallback_resolves_each_pid_witness:
  "IsMacOS macEnv \<and> lsofCwd macEnv (stringsJoin (map Itoa [100, 200]) '','') = None \<and>
   getProcessCWD macEnv 100 = Inr ''/repo-a'' \<and> getProcessCWD macEnv 200 = Inl CwdCommandFailed \<and>
   map_of (batchGetProcessCWDs macEnv [100, 200]) 100 = Some ''/repo-a'' \<and>
   map_of (batchGetProcessCWDs macEnv [100, 200]) 200 = None"
proof -
  have g: "getwd macEnv \<noteq> Some []" by (simp add: macEnv_def)
  have n: "[100, 200] \<noteq> ([]::int list)" by simp
  have m: "IsMacOS macEnv"
    and l: "lsofCwd macEnv (stringsJoin (map Itoa [100, 200]) '','') = None"
    using macEnv_facts by blast+
  note th = fallback_resolves_each_pid [OF m n l g, THEN conjunct2]
  show ?thesis using macEnv_facts th [of 100] th [of 200] by simp
qed

text \<open>
  C7. For a valid directory, \<open>GetRepoName\<close> returns the last path segment of the origin
  URL without a trailing \<^verbatim>\<open>.git\<close> when the query succeeds with a non-empty value, and
  the base name of the directory when the query fails or the value is absent or empty.

  \<open>GetRepoName\<close> tests the length of the command's output before it trims the output.
  For an origin URL set to the empty string git prints an empty line, so the output is one
  newline: the test passes, the trimmed value is empty, and the name returned is empty
  where the claim has the base name. The theorem evaluates the program there.
\<close>

theorem GetRepoName_empty_url_value:
  "ValidateDir emptyUrlEnv ''/repo-a'' = Inr ''/repo-a'' \<and>
   gitRemoteOriginURL emptyUrlEnv ''/repo-a'' = Some [CHR 0x0A] \<and>
   TrimSpace [CHR 0x0A] = [] \<and>
   Base ''/repo-a'' = ''repo-a'' \<and>
   GetRepoName emptyUrlEnv ''/repo-a'' = []"
  by (rule emptyUrl_eval)

text \<open>
  C8. Port extraction first applies the pattern \<^verbatim>\<open>:<port> (LISTEN)\<close> anywhere in the
  line; only when the pattern is absent it falls back to the trailing numeric suffix of the
  ninth field, and it yields 0 when neither succeeds.

  As amended: when the pattern occurs, the result is the number its leftmost occurrence
  holds (0 when the digits do not fit a machine integer), and the ninth field is not
  looked at; when the pattern occurs nowhere, the result is the part of the ninth field
  after its last colon (the whole field when it has no colon) read as a signed decimal
  integer, and 0 when the line has fewer than nine fields or that part is not such an
  integer.
\<close>

theorem extractPort_pattern_then_field:
  "(\<forall>pre s ds. line = pre @ s \<and> listenPatternAt s ds \<and>
        (\<forall>n<length pre. \<forall>d. \<not> listenPatternAt (drop n line) d) \<longrightarrow>
      extractPort line = (case Atoi ds of None \<Rightarrow> 0 | Some prt \<Rightarrow> prt)) \<and>
   ((\<forall>n d. \<not> listenPatternAt (drop n line) d) \<longrightarrow>
      extractPort line =
        (if length (Fields line) \<ge> 9 then
           (case Atoi (rev (takeWhile (\<lambda>c. c \<noteq> CHR '':'') (rev (Fields line ! 8)))) of
              None \<Rightarrow> 0 | Some prt \<Rightarrow> prt)
         else 0))"
proof (intro conjI allI impI)
  fix pre s ds
  assume a: "line = pre @ s \<and> listenPatternAt s ds \<and>
        (\<forall>n<length pre. \<forall>d. \<not> listenPatternAt (drop n line) d)"
  then have l: "line = pre @ s" and m: "listenPatternAt s ds"
    and nn: "\<forall>n<length pre. \<forall>d. \<not> listenPatternAt (drop n line) d"
    by blast+
  have "portRegexAt s = Some ds" using m by (simp add: portRegexAt_iff)
  moreover have "\<forall>n<length pre. portRegexAt (drop n line) = None"
    using nn by (simp only: portRegexAt_None_iff)
  then have "\<forall>n<length pre. portRegexAt (drop n (pre @ s)) = None"
    unfolding l .
  ultimately have "FindStringSubmatch (pre @ s) = Some ds" by (rule FindStringSubmatch_first)
  then show "extractPort line = (case Atoi ds of None \<Rightarrow> 0 | Some prt \<Rightarrow> prt)"
    unfolding l by (simp add: extractPort_def)
next
  assume "\<forall>n d. \<not> listenPatternAt (drop n line) d"
  then have "\<forall>n. portRegexAt (drop n line) = None" by (simp add: portRegexAt_None_iff)
  then have "FindStringSubmatch line = None" by (rule FindStringSubmatch_None)
  then show "extractPort line =
        (if length (Fields line) \<ge> 9 then
           (case Atoi (rev (takeWhile (\<lambda>c. c \<noteq> CHR '':'') (rev (Fields line ! 8)))) of
              None \<Rightarrow> 0 | Some prt \<Rightarrow> prt)
         else 0)"
    unfolding extractPort_def
    by (simp only: option.case Let_def Split_last_part Split_length_pos if_True)
qed

theorem extractPort_pattern_then_field_witness:
  "listenPatternAt '':3001 (LISTEN)'' ''3001'' \<and>
   extractPort (''node 100 dev 22u IPv4 0x1 0t0 TCP *'' @ '':3001 (LISTEN)'') = 3001 \<and>
   extractPort ''node 100 dev 22u IPv4 0x1 0t0 TCP [::1]:3000'' = 3000"
proof -
  let ?pre = "''node 100 dev 22u IPv4 0x1 0t0 TCP *''"
  let ?s = "'':3001 (LISTEN)''"
  let ?l2 = "''node 100 dev 22u IPv4 0x1 0t0 TCP [::1]:3000''"
  have m: "listenPatternAt ?s ''3001''"
    using listen_line_facts by (simp only: portRegexAt_iff)
  have nn: "\<forall>n<length ?pre. \<forall>d. \<not> listenPatternAt (drop n (?pre @ ?s)) d"
    using listen_line_facts
    by (simp only: portRegexAt_None_iff [symmetric] all_less_list_all)
  have a: "extractPort (?pre @ ?s) = (case Atoi ''3001'' of None \<Rightarrow> 0 | Some prt \<Rightarrow> prt)"
    using extractPort_pattern_then_field [of "?pre @ ?s"] m nn by blast
  have none: "\<forall>n d. \<not> listenPatternAt (drop n ?l2) d"
    using plain_line_facts by (simp only: no_pattern_list_all)
  have b: "extractPort ?l2 =
        (if length (Fields ?l2) \<ge> 9 then
           (case Atoi (rev (takeWhile (\<lambda>c. c \<noteq> CHR '':'') (rev (Fields ?l2 ! 8)))) of
              None \<Rightarrow> 0 | Some prt \<Rightarrow> prt)
         else 0)"
    using extractPort_pattern_then_field [of ?l2] none by blast
  have "extractPort (?pre @ ?s) = 3001" using a listen_line_facts by simp
  moreover have "extractPort ?l2 = 3000" using b plain_line_facts by simp
  ultimately show ?thesis using m by blast
qed

text \<open>
  The fallback of C8 as stated fails on a ninth field that ends in digits without a colon
  before them: the trailing numeric suffix of \<^verbatim>\<open>localhost3000\<close> is 3000, and the program
  returns 0.
\<close>

theorem trailing_suffix_counterexample:
  "FindStringSubmatch ''node 100 dev 22u IPv4 0x1 0t0 TCP localhost3000'' = None \<and>
   Fields ''node 100 dev 22u IPv4 0x1 0t0 TCP localhost3000'' ! 8 = ''localhost3000'' \<and>
   trailingDigits ''localhost3000'' = ''3000'' \<and>
   extractPortSpec ''node 100 dev 22u IPv4 0x1 0t0 TCP localhost3000'' = 3000 \<and>
   extractPort ''node 100 dev 22u IPv4 0x1 0t0 TCP localhost3000'' = 0"
  by code_simp

text \<open>
  C9. Every listener record has a positive process id and a port from 1 to 65535.

  As amended: every record of the first pass has a process id from 1 to 2147483647 and a
  port that is 2000 or at least 3000; the only upper bound on the port is the largest
  machine integer.
\<close>

theorem firstPass_record_bounds:
  "\<forall>p\<in>set (firstPass ls).
     0 < pid p \<and> pid p \<le> 2147483647 \<and> (port p = 2000 \<or> 3000 \<le> port p) \<and>
     port p \<le> 9223372036854775807"
proof (induction ls)
  case Nil
  then show ?case by simp
next
  case (Cons l ls)
  have "extractPort l \<le> 9223372036854775807" using extractPort_le [of l] by (simp add: maxInt_def)
  then show ?case using Cons
    by (auto simp: Let_def ValidatePID_def isDevPort_def split: option.splits if_splits)
qed

theorem firstPass_record_bounds_witness:
  "firstPass [''node 100 dev 22u IPv4 0x1 0t0 TCP *:70000 (LISTEN)''] =
     [\<lparr>pid = 100, command = ''node'', port = 70000\<rparr>] \<and>
   0 < pid \<lparr>pid = 100, command = ''node'', port = 70000\<rparr> \<and>
   pid \<lparr>pid = 100, command = ''node'', port = 70000\<rparr> \<le> 2147483647 \<and>
   3000 \<le> port \<lparr>pid = 100, command = ''node'', port = 70000\<rparr> \<and>
   port \<lparr>pid = 100, command = ''node'', port = 70000\<rparr> \<le> 9223372036854775807"
  using firstPass_record_bounds [of "[''node 100 dev 22u IPv4 0x1 0t0 TCP *:70000 (LISTEN)'']"]
  unfolding big_port_line by simp

text \<open>
  The range of C9 fails on a line whose port field holds 70000: the record survives
  parsing and classification.
\<close>

theorem port_range_counterexample:
  "firstPass (scanLines (listenOut [''node 100 dev 22u IPv4 0x1 0t0 TCP *:70000 (LISTEN)''])) =
     [\<lparr>pid = 100, command = ''node'', port = 70000\<rparr>] \<and> \<not> (70000::int) \<le> 65535"
  by code_simp

text \<open>
  C10. Deduplication keeps the first occurrence: when a record survives the lookups and no
  record before it in the enumeration order has its key, the entry built from it is in
  the output, it is the only entry of the output with that key, and its working directory
  is the directory resolved for that record.
\<close>

theorem dedup_keeps_first_record:
  assumes "lsofListen e = Some out"
    and "sortSliceSpec (sortSlice e)"
    and "cwdMap = batchGetProcessCWDs e (map pid (firstPass (scanLines out)))"
    and "firstPass (scanLines out) = pre @ p # post"
    and "candidate e cwdMap p = Some c"
    and "\<forall>q\<in>set pre. \<forall>d. candidate e cwdMap q = Some d \<longrightarrow> keyOf d \<noteq> keyOf c"
  shows "\<exists>servers. FindServers e = Inr servers \<and> c \<in> set servers \<and>
           (\<forall>s\<in>set servers. keyOf s = keyOf c \<longrightarrow> s = c) \<and>
           map_of cwdMap (pid p) = Some (CWD c)"
proof -
  obtain servers where fs: "FindServers e = Inr servers"
    and st: "set servers = set (buildServers e out)"
    using FindServers_set [OF assms(1,2)] by blast
  let ?cands = "List.map_filter (candidate e cwdMap)"
  have bs: "buildServers e out = dedupKeys {} (?cands pre @ c # ?cands post)"
    using assms(3,4,5) by (simp add: buildServers_eq map_filter_append)
  have "\<forall>d\<in>set (?cands pre). keyOf d \<noteq> keyOf c"
    using assms(6) by (auto simp: set_map_filter)
  then have mem: "c \<in> set (buildServers e out)"
    unfolding bs by (intro dedupKeys_first) auto
  have uniq: "\<forall>s\<in>set (buildServers e out). keyOf s = keyOf c \<longrightarrow> s = c"
    using mem unfolding bs by (blast intro: dedupKeys_unique)
  have "map_of cwdMap (pid p) = Some (CWD c)"
    using assms(5) by (auto simp: candidate_def split: option.splits if_splits)
  then show ?thesis using fs st mem uniq by auto
qed

theorem dedup_keeps_first_record_witness:
  "lsofListen workEnv = Some workOut \<and>
   firstPass (scanLines workOut) =
     [] @ \<lparr>pid = 100, command = ''node'', port = 3001\<rparr> #
       [\<lparr>pid = 101, command = ''node'', port = 3001\<rparr>,
        \<lparr>pid = 200, command = ''ruby'', port = 3000\<rparr>,
        \<lparr>pid = 300, command = ''puma'', port = 9292\<rparr>] \<and>
   (\<exists>servers. FindServers workEnv = Inr servers \<and>
      \<lparr>Repo = ''repo-a'', Branch = ''main'', Process = ''node'', Port = 3001, PID = 0,
        CWD = ''/repo-a''\<rparr> \<in> set servers \<and>
      \<lparr>Repo = ''repo-a'', Branch = ''main'', Process = ''node'', Port = 3001, PID = 0,
        CWD = ''/repo-a/sub''\<rparr> \<notin> set servers)"
proof -
  let ?a = "\<lparr>Repo = ''repo-a'', Branch = ''main'', Process = ''node'', Port = 3001, PID = 0,
        CWD = ''/repo-a''\<rparr>"
  let ?b = "\<lparr>Repo = ''repo-a'', Branch = ''main'', Process = ''node'', Port = 3001, PID = 0,
        CWD = ''/repo-a/sub''\<rparr>"
  let ?cm = "[(100, ''/repo-a''), (101, ''/repo-a/sub''), (200, ''/repo-b''), (300, ''/repo-c'')]"
  let ?p = "\<lparr>pid = 100, command = ''node'', port = 3001\<rparr>"
  have h4: "firstPass (scanLines workOut) =
     [] @ ?p # [\<lparr>pid = 101, command = ''node'', port = 3001\<rparr>,
        \<lparr>pid = 200, command = ''ruby'', port = 3000\<rparr>,
        \<lparr>pid = 300, command = ''puma'', port = 9292\<rparr>]"
    by (simp add: workEnv_procs)
  have h5: "candidate workEnv ?cm ?p = Some ?a"
    using workEnv_candidates by simp
  have h6: "\<forall>q\<in>set []. \<forall>d. candidate workEnv ?cm q = Some d \<longrightarrow> keyOf d \<noteq> keyOf ?a"
    by simp
  obtain servers where fs: "FindServers workEnv = Inr servers" and mem: "?a \<in> set servers"
    and uniq: "\<forall>s\<in>set servers. keyOf s = keyOf ?a \<longrightarrow> s = ?a"
    using dedup_keeps_first_record [OF workEnv_listen workEnv_sort workEnv_cwdMap h4 h5 h6]
    by blast
  have "?b \<notin> set servers"
  proof
    assume "?b \<in> set servers"
    then have "?b = ?a" using uniq by (simp add: workEnv_key_a workEnv_key_a_sub)
    then show False by simp
  qed
  then show ?thesis using workEnv_listen h4 fs mem by blast
qed

section \<open>Further properties\<close>

text \<open>
  No two entries of the output share repository, branch, process and port.
\<close>

theorem output_tuples_distinct:
  assumes "lsofListen e = Some out" and "sortSliceSpec (sortSlice e)"
    and "FindServers e = Inr servers"
  shows "distinct (map (\<lambda>s. (Repo s, Branch s, Process s, Port s)) servers)"
  using assms by (rule FindServers_tuples_distinct)

theorem output_tuples_distinct_witness:
  "FindServers workEnv = Inr
     [\<lparr>Repo = ''repo-a'', Branch = ''main'', Process = ''node'', Port = 3001, PID = 0,
        CWD = ''/repo-a''\<rparr>,
      \<lparr>Repo = ''repo-c'', Branch = ''N/A'', Process = ''puma'', Port = 9292, PID = 0,
        CWD = ''/repo-c''\<rparr>] \<and>
   distinct [(''repo-a'', ''main'', ''node'', 3001 :: int), (''repo-c'', ''N/A'', ''puma'', 9292)]"
  using output_tuples_distinct [OF workEnv_listen workEnv_sort workEnv_find] workEnv_find
  by simp

text \<open>
  When repository, branch and command of a surviving record contain no key separator,
  the output holds exactly one entry with the record's four fields.
\<close>

theorem one_entry_per_tuple:
  assumes "lsofListen e = Some out" and "sortSliceSpec (sortSlice e)"
    and "FindServers e = Inr servers"
    and "p \<in> set (firstPass (scanLines out))"
    and "candidate e (batchGetProcessCWDs e (map pid (firstPass (scanLines out)))) p = Some c"
    and "CHR ''|'' \<notin> set (Repo c)" and "CHR ''|'' \<notin> set (Branch c)"
    and "CHR ''|'' \<notin> set (Process c)"
  shows "length (filter (\<lambda>s. (Repo s, Branch s, Process s, Port s) =
            (Repo c, Branch c, Process c, Port c)) servers) = 1"
proof -
  let ?t = "\<lambda>s. (Repo s, Branch s, Process s, Port s)"
  let ?cm = "batchGetProcessCWDs e (map pid (firstPass (scanLines out)))"
  have st: "set servers = set (buildServers e out)"
    using FindServers_set [OF assms(1,2)] assms(3) by auto
  have "c \<in> set (List.map_filter (candidate e ?cm) (firstPass (scanLines out)))"
    using assms(4,5) by (auto simp: set_map_filter)
  then have "\<exists>s\<in>set (buildServers e out). keyOf s = keyOf c"
    unfolding buildServers_eq by (intro dedupKeys_key_covered) auto
  then obtain s where s: "s \<in> set servers" and ks: "keyOf s = keyOf c" using st by blast
  have "serverKey (Repo s) (Branch s) (Process s) (Port s) =
      serverKey (Repo c) (Branch c) (Process c) (Port c)"
    using ks by (simp add: keyOf_def)
  then have "?t s = ?t c" using serverKey_fields [OF _ assms(6,7,8)] by simp
  moreover have "length (filter (\<lambda>y. ?t y = ?t s) servers) = 1"
    using FindServers_tuples_distinct [OF assms(1,2,3)] s by (rule count_one_of_distinct)
  ultimately show ?thesis by simp
qed

theorem one_entry_per_tuple_witness:
  "candidate workEnv (batchGetProcessCWDs workEnv (map pid (firstPass (scanLines workOut))))
       \<lparr>pid = 101, command = ''node'', port = 3001\<rparr> =
     Some \<lparr>Repo = ''repo-a'', Branch = ''main'', Process = ''node'', Port = 3001, PID = 0,
       CWD = ''/repo-a/sub''\<rparr> \<and>
   (\<exists>servers. FindServers workEnv = Inr servers \<and>
      length (filter (\<lambda>s. (Repo s, Branch s, Process s, Port s) =
          (''repo-a'', ''main'', ''node'', 3001)) servers) = 1)"
proof -
  let ?p = "\<lparr>pid = 101, command = ''node'', port = 3001\<rparr>"
  let ?c = "\<lparr>Repo = ''repo-a'', Branch = ''main'', Process = ''node'', Port = 3001, PID = 0,
       CWD = ''/repo-a/sub''\<rparr>"
  have mem: "?p \<in> set (firstPass (scanLines workOut))" by (simp add: workEnv_procs)
  have cand: "candidate workEnv
      (batchGetProcessCWDs workEnv (map pid (firstPass (scanLines workOut)))) ?p = Some ?c"
    using workEnv_candidates by (simp add: workEnv_cwdMap [symmetric])
  have "length (filter (\<lambda>s. (Repo s, Branch s, Process s, Port s) =
            (Repo ?c, Branch ?c, Process ?c, Port ?c))
          [\<lparr>Repo = ''repo-a'', Branch = ''main'', Process = ''node'', Port = 3001, PID = 0,
             CWD = ''/repo-a''\<rparr>,
           \<lparr>Repo = ''repo-c'', Branch = ''N/A'', Process = ''puma'', Port = 9292, PID = 0,
             CWD = ''/repo-c''\<rparr>]) = 1"
    by (rule one_entry_per_tuple [OF workEnv_listen workEnv_sort workEnv_find mem cand]) simp_all
  then show ?thesis using cand workEnv_find by simp
qed

text \<open>
  For a valid directory, \<open>GetRepoName\<close> returns the base name of the cleaned directory
  when the origin query fails or prints nothing, and the part of the trimmed output after
  its last slash, without one trailing \<^verbatim>\<open>.git\<close>, when the trimmed output is not empty.
\<close>

theorem GetRepoName_cases:
  assumes "ValidateDir e dir = Inr d"
  shows "(gitRemoteOriginURL e d = None \<or> gitRemoteOriginURL e d = Some [] \<longrightarrow>
            GetRepoName e dir = Base d) \<and>
         (\<forall>raw. gitRemoteOriginURL e d = Some raw \<and> TrimSpace raw \<noteq> [] \<longrightarrow>
            GetRepoName e dir =
              TrimSuffix (rev (takeWhile (\<lambda>c. c \<noteq> CHR ''/'') (rev (TrimSpace raw)))) ''.git'')"
proof (intro conjI allI impI)
  assume "gitRemoteOriginURL e d = None \<or> gitRemoteOriginURL e d = Some []"
  then show "GetRepoName e dir = Base d"
    using assms by (auto simp: GetRepoName_def)
next
  fix raw
  assume a: "gitRemoteOriginURL e d = Some raw \<and> TrimSpace raw \<noteq> []"
  have "raw \<noteq> []"
  proof
    assume "raw = []"
    then have "TrimSpace raw = []"
      by (simp add: TrimSpace_def TrimLeftSpace.simps [of "[]"] TrimRightSpace.simps [of "[]"]
          endsWithSpace_def)
    then show False using a by simp
  qed
  then show "GetRepoName e dir =
      TrimSuffix (rev (takeWhile (\<lambda>c. c \<noteq> CHR ''/'') (rev (TrimSpace raw)))) ''.git''"
    using assms a Split_length_pos [of "TrimSpace raw" "CHR ''/''"]
    by (simp add: GetRepoName_def Let_def Split_last_part_Suc)
qed

theorem GetRepoName_cases_witness:
  "ValidateDir workEnv ''/repo-a'' = Inr ''/repo-a'' \<and>
   GetRepoName workEnv ''/repo-a'' = ''repo-a'' \<and>
   GetRepoName workEnv ''/repo-c'' = ''repo-c''"
proof -
  have va: "ValidateDir workEnv ''/repo-a'' = Inr ''/repo-a''" using workEnv_repo_a by blast
  have vc: "ValidateDir workEnv ''/repo-c'' = Inr ''/repo-c''" using workEnv_repo_c by blast
  have "GetRepoName workEnv ''/repo-a'' = ''repo-a''"
    using GetRepoName_cases [OF va] workEnv_repo_a by simp
  moreover have "GetRepoName workEnv ''/repo-c'' = ''repo-c''"
    using GetRepoName_cases [OF vc] workEnv_repo_a by simp
  ultimately show ?thesis using va by blast
qed

end
